theory Spec2Isabelle
  imports Complex_Main
begin

section \<open>Dates of the runtime\<close>

text \<open>
  A JavaScript \<open>Date\<close> object holds a time value: a whole number of milliseconds since
  the epoch, of magnitude at most 8.64e15, or NaN (an invalid date). The handlers of
  \<open>server.js\<close> only copy dates, compare them and move them by whole days.
\<close>

datatype jsdate = Invalid_Date | Date int

definition msPerDay :: int where
  "msPerDay = 86400000"

definition maxTime :: int where
  "maxTime = 8640000000000000"

definition TimeClip :: "int \<Rightarrow> jsdate" where
  "TimeClip t = (if \<bar>t\<bar> > maxTime then Invalid_Date else Date t)"

text \<open>
  The local time zone of the process: \<open>LocalTZA_utc t\<close> is the offset added to the UTC time
  \<open>t\<close> to read it as local time, \<open>LocalTZA_local t\<close> the offset taken from the local time
  \<open>t\<close> to get back to UTC.
\<close>

record timezone =
  LocalTZA_utc :: "int \<Rightarrow> int"
  LocalTZA_local :: "int \<Rightarrow> int"

definition fixed_zone :: "int \<Rightarrow> timezone" where
  "fixed_zone c = \<lparr>LocalTZA_utc = (\<lambda>_. c), LocalTZA_local = (\<lambda>_. c)\<rparr>"

text \<open>
  \<open>new Date(x)\<close> for \<open>x\<close> a date or \<open>null\<close>: a copy of the date; \<open>null\<close> converts to the
  number 0, the epoch.
\<close>

definition new_Date :: "jsdate option \<Rightarrow> jsdate" where
  "new_Date x = (case x of None \<Rightarrow> Date 0 | Some d \<Rightarrow> d)"

text \<open>
  \<open>x.setDate(x.getDate() + n)\<close>: the day of the month is read and written in local time.
  The day number of the local time moves by \<open>n\<close> and the time within the day is kept, so the
  local time moves by \<open>n * msPerDay\<close>; the result is converted back to UTC and clipped.
\<close>

definition setDate_plus :: "timezone \<Rightarrow> jsdate \<Rightarrow> int \<Rightarrow> jsdate" where
  "setDate_plus tz x n =
     (case x of
        Invalid_Date \<Rightarrow> Invalid_Date
      | Date t \<Rightarrow>
          (let local = t + LocalTZA_utc tz t;
               newDate = local + n * msPerDay
           in TimeClip (newDate - LocalTZA_local tz newDate)))"

definition toTimestamp :: "(string \<Rightarrow> jsdate) \<Rightarrow> string option \<Rightarrow> jsdate option" where
  "toTimestamp parse dt =
     (case dt of None \<Rightarrow> None | Some s \<Rightarrow> if s = [] then None else Some (parse s))"

definition addDays :: "timezone \<Rightarrow> jsdate option \<Rightarrow> int \<Rightarrow> jsdate" where
  "addDays tz d n = (let x = new_Date d in setDate_plus tz x n)"

definition addWeeks :: "timezone \<Rightarrow> jsdate option \<Rightarrow> int \<Rightarrow> jsdate" where
  "addWeeks tz d n = addDays tz d (n * 7)"

text \<open>
  \<open>currentStart <= until\<close>: both sides become numbers; a comparison with NaN is false,
  and \<open>null\<close> is the number 0.
\<close>

definition js_le :: "jsdate \<Rightarrow> jsdate option \<Rightarrow> bool" where
  "js_le a b =
     (case a of
        Invalid_Date \<Rightarrow> False
      | Date s \<Rightarrow>
          (case b of None \<Rightarrow> s \<le> 0 | Some Invalid_Date \<Rightarrow> False | Some (Date u) \<Rightarrow> s \<le> u))"

section \<open>Recurrence expansion\<close>

text \<open>
  The handlers of \<open>POST /admin/events\<close> and \<open>POST /admin/import\<close> expand a recurrence with
  the same statements. An instance is a pair of a start and an optional end.
\<close>

type_synonym event_instance = "jsdate \<times> jsdate option"

definition until_of :: "timezone \<Rightarrow> jsdate option \<Rightarrow> string \<Rightarrow> jsdate option \<Rightarrow> jsdate option" where
  "until_of tz start recurrence recurrence_until =
     (case recurrence_until of
        Some u \<Rightarrow> Some u
      | None \<Rightarrow>
          (if recurrence = ''daily'' then Some (addDays tz start 30)
           else if recurrence = ''weekly'' then Some (addWeeks tz start 8)
           else start))"

definition step_of :: "timezone \<Rightarrow> string \<Rightarrow> (jsdate \<Rightarrow> jsdate) option" where
  "step_of tz recurrence =
     (if recurrence = ''daily'' then Some (\<lambda>d. addDays tz (Some d) 1)
      else if recurrence = ''weekly'' then Some (\<lambda>d. addWeeks tz (Some d) 1)
      else None)"

text \<open>
  The \<open>while\<close> loop. It leaves when the comparison fails, and by \<open>break\<close> when, after a push,
  \<open>instances.length > 200\<close>.
\<close>

function expand_loop ::
  "(jsdate \<Rightarrow> jsdate) \<Rightarrow> jsdate option \<Rightarrow> jsdate \<Rightarrow> jsdate option \<Rightarrow> event_instance list \<Rightarrow> event_instance list"
where
  "expand_loop step until currentStart currentEnd instances =
     (if js_le currentStart until then
        (if length (instances @ [(currentStart, currentEnd)]) > 200
         then instances @ [(currentStart, currentEnd)]
         else expand_loop step until (step currentStart) (map_option step currentEnd)
                (instances @ [(currentStart, currentEnd)]))
      else instances)"
  by pat_completeness auto
termination
  by (relation "measure (\<lambda>(step, until, currentStart, currentEnd, instances). 201 - length instances)")
     auto

declare expand_loop.simps [simp del]

definition expand ::
  "timezone \<Rightarrow> jsdate option \<Rightarrow> jsdate option \<Rightarrow> string \<Rightarrow> jsdate option \<Rightarrow> event_instance list"
where
  "expand tz start endt recurrence recurrence_until =
     (let until = until_of tz start recurrence recurrence_until;
          currentStart = new_Date start;
          currentEnd = (case endt of None \<Rightarrow> None | Some e \<Rightarrow> Some (new_Date (Some e)))
      in case step_of tz recurrence of
           None \<Rightarrow> [(currentStart, currentEnd)]
         | Some step \<Rightarrow> expand_loop step until currentStart currentEnd [])"

text \<open>A date moved by a number of milliseconds; an invalid date stays invalid.\<close>

fun plus_ms :: "int \<Rightarrow> jsdate \<Rightarrow> jsdate" where
  "plus_ms n Invalid_Date = Invalid_Date"
| "plus_ms n (Date t) = Date (t + n)"

section \<open>Strings and numbers of the runtime\<close>

text \<open>
  Strings are lists of bytes. \<open>toLowerCase\<close> (and \<open>LOWER\<close> of the store) change the letters
  \<open>A\<close> to \<open>Z\<close>; \<open>trim\<close> removes tab, line feed, vertical tab, form feed, carriage return and
  space at both ends. Letters and white space outside ASCII are not modelled.
\<close>

definition toLowerCase_char :: "char \<Rightarrow> char" where
  "toLowerCase_char c =
     (case map_of (zip ''ABCDEFGHIJKLMNOPQRSTUVWXYZ'' ''abcdefghijklmnopqrstuvwxyz'') c of
        Some l \<Rightarrow> l
      | None \<Rightarrow> c)"

definition toLowerCase :: "string \<Rightarrow> string" where
  "toLowerCase s = map toLowerCase_char s"

definition is_space :: "char \<Rightarrow> bool" where
  "is_space c = (c \<in> set [CHR 0x09, CHR 0x0A, CHR 0x0B, CHR 0x0C, CHR 0x0D, CHR '' ''])"

definition trim :: "string \<Rightarrow> string" where
  "trim s = rev (dropWhile is_space (rev (dropWhile is_space s)))"

text \<open>\<open>s.split(sep)\<close> for a separator of one character; the empty string gives one empty piece.\<close>

fun split_on :: "char \<Rightarrow> string \<Rightarrow> string list" where
  "split_on sep [] = [[]]"
| "split_on sep (c # cs) =
     (if c = sep then [] # split_on sep cs
      else (case split_on sep cs of [] \<Rightarrow> [[c]] | w # ws \<Rightarrow> (c # w) # ws))"

definition comma :: char where
  "comma = CHR '',''"

text \<open>\<open>[...new Set(xs)]\<close>: the first occurrence of every element, in order.\<close>

definition new_Set :: "'a list \<Rightarrow> 'a list" where
  "new_Set xs = rev (remdups (rev xs))"

text \<open>A value is truthy when it is neither \<open>undefined\<close>, \<open>null\<close> nor the empty string.\<close>

definition truthy :: "string option \<Rightarrow> bool" where
  "truthy v = (case v of None \<Rightarrow> False | Some s \<Rightarrow> s \<noteq> [])"

text \<open>
  Numbers are reals with the three special values of a double; the rounding of doubles is
  left out. \<open>parseFloat\<close> skips leading white space and reads the longest prefix that is a
  decimal literal: a sign, \<open>Infinity\<close> or digits with a fraction and an exponent.
\<close>

datatype jsnum = NaN | PosInf | NegInf | Num real

definition is_digit :: "char \<Rightarrow> bool" where
  "is_digit c = (c \<in> set ''0123456789'')"

definition digit_val :: "char \<Rightarrow> nat" where
  "digit_val c = of_char c - 48"

definition digits_val :: "string \<Rightarrow> nat" where
  "digits_val ds = foldl (\<lambda>a c. 10 * a + digit_val c) 0 ds"

definition pow10 :: "int \<Rightarrow> real" where
  "pow10 e = (if 0 \<le> e then 10 ^ nat e else 1 / 10 ^ nat (- e))"

definition parse_exponent :: "string \<Rightarrow> int" where
  "parse_exponent r =
     (case r of
        [] \<Rightarrow> 0
      | c # r1 \<Rightarrow>
          if c = CHR ''e'' \<or> c = CHR ''E'' then
            (let neg = (r1 \<noteq> [] \<and> hd r1 = CHR ''-'');
                 r2 = (if r1 \<noteq> [] \<and> (hd r1 = CHR ''-'' \<or> hd r1 = CHR ''+'') then tl r1 else r1);
                 ds = takeWhile is_digit r2
             in if ds = [] then 0
                else if neg then - int (digits_val ds) else int (digits_val ds))
          else 0)"

definition parseFloat :: "string \<Rightarrow> jsnum" where
  "parseFloat s =
     (let s1 = dropWhile is_space s;
          neg = (s1 \<noteq> [] \<and> hd s1 = CHR ''-'');
          s2 = (if s1 \<noteq> [] \<and> (hd s1 = CHR ''-'' \<or> hd s1 = CHR ''+'') then tl s1 else s1);
          ip = takeWhile is_digit s2;
          r = dropWhile is_digit s2;
          has_dot = (r \<noteq> [] \<and> hd r = CHR ''.'');
          fp = (if has_dot then takeWhile is_digit (tl r) else []);
          r2 = (if has_dot then dropWhile is_digit (tl r) else r)
      in if take 8 s2 = ''Infinity'' then (if neg then NegInf else PosInf)
         else if ip = [] \<and> fp = [] then NaN
         else (let m = real (digits_val ip) + real (digits_val fp) / 10 ^ length fp;
                   v = m * pow10 (parse_exponent r2)
               in Num (if neg then - v else v)))"

text \<open>The product of a number and a finite positive constant.\<close>

fun js_times :: "jsnum \<Rightarrow> real \<Rightarrow> jsnum" where
  "js_times NaN c = NaN"
| "js_times PosInf c = PosInf"
| "js_times NegInf c = NegInf"
| "js_times (Num r) c = Num (r * c)"

section \<open>The public query: \<open>GET /events\<close>\<close>

text \<open>
  A parsed query value is a string or an array of values (a repeated parameter, or one
  written with brackets); objects are not modelled. \<open>types\<close>, \<open>type\<close> and \<open>types[]\<close> may
  be either; the other parameters are read as strings.
\<close>

datatype qval = QStr string | QArr "qval list"

record query =
  q_types :: "qval option"
  q_type :: "qval option"
  q_types_brackets :: "qval option"
  q_lat :: "string option"
  q_lng :: "string option"
  q_radius :: "string option"
  q_date :: "string option"
  q_timeOfDay :: "string option"

fun join_comma :: "string list \<Rightarrow> string" where
  "join_comma [] = []"
| "join_comma [x] = x"
| "join_comma (x # y # ys) = x @ comma # join_comma (y # ys)"

text \<open>\<open>String(v)\<close>: a string is itself, an array is its elements joined by commas.\<close>

fun String_js :: "qval \<Rightarrow> string" where
  "String_js (QStr s) = s"
| "String_js (QArr vs) = join_comma (map String_js vs)"

text \<open>\<open>a.concat(x ?? [])\<close>: an array is spread by one level, any other value is appended.\<close>

definition concat_js :: "qval list \<Rightarrow> qval option \<Rightarrow> qval list" where
  "concat_js a x =
     (case x of None \<Rightarrow> a | Some (QStr s) \<Rightarrow> a @ [QStr s] | Some (QArr vs) \<Rightarrow> a @ vs)"

definition raw_types :: "query \<Rightarrow> qval list" where
  "raw_types q = concat_js (concat_js (concat_js [] (q_types q)) (q_type q)) (q_types_brackets q)"

fun push_item :: "string list \<Rightarrow> qval \<Rightarrow> string list" where
  "push_item types (QArr vs) = foldl (\<lambda>ts v. ts @ split_on comma (String_js v)) types vs"
| "push_item types (QStr s) = types @ split_on comma s"

definition parse_types :: "query \<Rightarrow> string list" where
  "parse_types q =
     (let types = foldl push_item [] (raw_types q)
      in new_Set (map toLowerCase (filter (\<lambda>s. s \<noteq> []) (map trim types))))"

text \<open>
  What the specification says of the type set: every supplied value is split on commas,
  the pieces are trimmed, the empty ones dropped, the others lower-cased, and duplicates
  do not count.
\<close>

fun supplied :: "qval \<Rightarrow> string list" where
  "supplied (QStr s) = [s]"
| "supplied (QArr vs) = concat (map supplied vs)"

definition supplied_values :: "query \<Rightarrow> string list" where
  "supplied_values q =
     concat (map (\<lambda>x. case x of None \<Rightarrow> [] | Some v \<Rightarrow> supplied v)
               [q_types q, q_type q, q_types_brackets q])"

definition spec_type_set :: "query \<Rightarrow> string set" where
  "spec_type_set q =
     set (map toLowerCase
            (filter (\<lambda>s. s \<noteq> []) (map trim (concat (map (split_on comma) (supplied_values q))))))"

definition boundsFor :: "string \<Rightarrow> string option \<Rightarrow> string \<times> string" where
  "boundsFor d tod =
     (let t = toLowerCase (case tod of None \<Rightarrow> [] | Some s \<Rightarrow> s);
          (startHH, endHH) =
            (if t = ''morning'' then (''05:00:00'', ''11:59:59'')
             else if t = ''afternoon'' then (''12:00:00'', ''16:59:59'')
             else if t = ''evening'' then (''17:00:00'', ''23:59:59'')
             else (''00:00:00'', ''23:59:59''))
      in (d @ '' '' @ startHH, d @ '' '' @ endHH))"

text \<open>
  The statement sent to the store: the parameter array, and the conditions of the
  \<open>WHERE\<close> clause, joined by \<open>AND\<close>, with the numbers of their placeholders.
\<close>

datatype param = PNull | PText string | PTextArr "string list" | PNum jsnum | PDate jsdate

datatype cond =
    TypeAny nat
  | StartGE nat
  | StartLE nat
  | StartGENow
  | LocNotNull
  | DWithin nat nat nat

record select_stmt =
  sel_params :: "param list"
  sel_conds :: "cond list"

definition add_type_filter :: "string list \<Rightarrow> select_stmt \<Rightarrow> select_stmt" where
  "add_type_filter types st =
     (if types \<noteq> [] then
        (let params = sel_params st @ [PTextArr types]
         in \<lparr>sel_params = params, sel_conds = sel_conds st @ [TypeAny (length params)]\<rparr>)
      else st)"

definition add_date_filter :: "string option \<Rightarrow> string option \<Rightarrow> select_stmt \<Rightarrow> select_stmt" where
  "add_date_filter date timeOfDay st =
     (case date of
        Some d \<Rightarrow>
          if d \<noteq> [] then
            (let (fromTs, toTs) = boundsFor d timeOfDay;
                 params = sel_params st @ [PText fromTs, PText toTs]
             in \<lparr>sel_params = params,
                 sel_conds = sel_conds st @ [StartGE (length params - 1), StartLE (length params)]\<rparr>)
          else \<lparr>sel_params = sel_params st, sel_conds = sel_conds st @ [StartGENow]\<rparr>
      | None \<Rightarrow> \<lparr>sel_params = sel_params st, sel_conds = sel_conds st @ [StartGENow]\<rparr>)"

definition add_radius_filter ::
  "string option \<Rightarrow> string option \<Rightarrow> string option \<Rightarrow> select_stmt \<Rightarrow> select_stmt"
where
  "add_radius_filter lat lng radius st =
     (case (lat, lng, radius) of
        (Some lat_s, Some lng_s, Some radius_s) \<Rightarrow>
          if lat_s \<noteq> [] \<and> lng_s \<noteq> [] \<and> radius_s \<noteq> [] then
            (let params = sel_params st @
                   [PNum (parseFloat lng_s), PNum (parseFloat lat_s),
                    PNum (js_times (parseFloat radius_s) 1609.34)]
             in \<lparr>sel_params = params,
                 sel_conds = sel_conds st @
                   [LocNotNull, DWithin (length params - 2) (length params - 1) (length params)]\<rparr>)
          else st
      | _ \<Rightarrow> st)"

definition events_query :: "query \<Rightarrow> select_stmt" where
  "events_query q =
     add_radius_filter (q_lat q) (q_lng q) (q_radius q)
       (add_date_filter (q_date q) (q_timeOfDay q)
          (add_type_filter (parse_types q) \<lparr>sel_params = [], sel_conds = []\<rparr>))"

section \<open>The store\<close>

text \<open>
  A row of the table \<open>events\<close>. A location is a point: its X is the longitude, its Y the
  latitude. Timestamps are instants in milliseconds. The store itself is not part of the
  repository: what the statements need from it is a record of its clock, of its reading of
  a text as a timestamp and of its distance predicate \<open>ST_DWithin\<close>. Statements that
  the store would refuse for their text (a date it cannot read) are not modelled.
\<close>

record event_row =
  row_id :: string
  row_name :: "string option"
  row_type :: "string option"
  row_description :: "string option"
  row_address_name :: "string option"
  row_address :: "string option"
  row_location :: "(jsnum \<times> jsnum) option"
  row_start_time :: "int option"
  row_end_time :: "int option"

record store =
  st_now :: int
  st_read_ts :: "string \<Rightarrow> int"
  st_dwithin :: "jsnum \<times> jsnum \<Rightarrow> jsnum \<times> jsnum \<Rightarrow> jsnum \<Rightarrow> bool"

text \<open>The parameter of the placeholder \<open>$n\<close>, counted from 1.\<close>

definition param_at :: "param list \<Rightarrow> nat \<Rightarrow> param option" where
  "param_at ps n = (if 1 \<le> n \<and> n \<le> length ps then Some (ps ! (n - 1)) else None)"

definition text_val :: "param option \<Rightarrow> string option" where
  "text_val p = (case p of Some (PText s) \<Rightarrow> Some s | _ \<Rightarrow> None)"

definition ts_val :: "store \<Rightarrow> param option \<Rightarrow> int option" where
  "ts_val s p =
     (case p of
        Some (PText x) \<Rightarrow> Some (st_read_ts s x)
      | Some (PDate (Date t)) \<Rightarrow> Some t
      | _ \<Rightarrow> None)"

fun sat :: "store \<Rightarrow> param list \<Rightarrow> event_row \<Rightarrow> cond \<Rightarrow> bool" where
  "sat s ps r (TypeAny n) =
     (case (row_type r, param_at ps n) of
        (Some t, Some (PTextArr ts)) \<Rightarrow> toLowerCase t \<in> set ts
      | _ \<Rightarrow> False)"
| "sat s ps r (StartGE n) =
     (case (row_start_time r, param_at ps n) of
        (Some t, Some (PText x)) \<Rightarrow> st_read_ts s x \<le> t
      | _ \<Rightarrow> False)"
| "sat s ps r (StartLE n) =
     (case (row_start_time r, param_at ps n) of
        (Some t, Some (PText x)) \<Rightarrow> t \<le> st_read_ts s x
      | _ \<Rightarrow> False)"
| "sat s ps r StartGENow =
     (case row_start_time r of Some t \<Rightarrow> st_now s \<le> t | None \<Rightarrow> False)"
| "sat s ps r LocNotNull = (row_location r \<noteq> None)"
| "sat s ps r (DWithin a b c) =
     (case (row_location r, param_at ps a, param_at ps b, param_at ps c) of
        (Some loc, Some (PNum x), Some (PNum y), Some (PNum d)) \<Rightarrow> st_dwithin s loc (x, y) d
      | _ \<Rightarrow> False)"

definition matches :: "store \<Rightarrow> select_stmt \<Rightarrow> event_row \<Rightarrow> bool" where
  "matches s stmt r = list_all (sat s (sel_params stmt) r) (sel_conds stmt)"

text \<open>The conditions of a statement on one column, to speak of one filter at a time.\<close>

fun on_type :: "cond \<Rightarrow> bool" where
  "on_type (TypeAny n) = True"
| "on_type c = False"

fun on_start_time :: "cond \<Rightarrow> bool" where
  "on_start_time (StartGE n) = True"
| "on_start_time (StartLE n) = True"
| "on_start_time StartGENow = True"
| "on_start_time c = False"

fun on_location :: "cond \<Rightarrow> bool" where
  "on_location LocNotNull = True"
| "on_location (DWithin a b c) = True"
| "on_location c = False"

definition restrict :: "(cond \<Rightarrow> bool) \<Rightarrow> select_stmt \<Rightarrow> select_stmt" where
  "restrict P stmt = \<lparr>sel_params = sel_params stmt, sel_conds = filter P (sel_conds stmt)\<rparr>"

section \<open>Writing and reading events\<close>

record event =
  ev_name :: "string option"
  ev_type :: "string option"
  ev_description :: "string option"
  ev_address_name :: "string option"
  ev_address :: "string option"
  ev_lat :: "jsnum option"
  ev_lon :: "jsnum option"
  ev_start_time :: "jsdate option"
  ev_end_time :: "jsdate option"

definition to_param :: "string option \<Rightarrow> param" where
  "to_param x = (case x of None \<Rightarrow> PNull | Some s \<Rightarrow> PText s)"

text \<open>\<open>x || null\<close> for a string, and for a date (a date object is always truthy).\<close>

definition or_null :: "string option \<Rightarrow> param" where
  "or_null x = (case x of None \<Rightarrow> PNull | Some s \<Rightarrow> if s = [] then PNull else PText s)"

definition date_param :: "jsdate option \<Rightarrow> param" where
  "date_param x = (case x of None \<Rightarrow> PNull | Some d \<Rightarrow> PDate d)"

datatype loc_sql = LocNULL | ST_MakePoint nat nat

record insert_stmt =
  ins_params :: "param list"
  ins_locSql :: loc_sql

definition insertEvent :: "event \<Rightarrow> insert_stmt" where
  "insertEvent ev =
     (let params = [to_param (ev_name ev), to_param (ev_type ev), or_null (ev_description ev),
                    or_null (ev_address_name ev), or_null (ev_address ev),
                    date_param (ev_start_time ev), date_param (ev_end_time ev)]
      in case (ev_lat ev, ev_lon ev) of
           (Some lat, Some lon) \<Rightarrow>
             (let params' = params @ [PNum lon, PNum lat]
              in \<lparr>ins_params = params',
                  ins_locSql = ST_MakePoint (length params' - 1) (length params')\<rparr>)
         | _ \<Rightarrow> \<lparr>ins_params = params, ins_locSql = LocNULL\<rparr>)"

text \<open>
  The value of the location expression of a statement, and the row an \<open>INSERT\<close> persists
  under the identifier the store assigns.
\<close>

definition eval_locSql :: "param list \<Rightarrow> loc_sql \<Rightarrow> (jsnum \<times> jsnum) option" where
  "eval_locSql ps l =
     (case l of
        LocNULL \<Rightarrow> None
      | ST_MakePoint i j \<Rightarrow>
          (case (param_at ps i, param_at ps j) of
             (Some (PNum x), Some (PNum y)) \<Rightarrow> Some (x, y)
           | _ \<Rightarrow> None))"

definition inserted_row :: "store \<Rightarrow> string \<Rightarrow> insert_stmt \<Rightarrow> event_row" where
  "inserted_row s new_id stmt =
     (let ps = ins_params stmt
      in \<lparr>row_id = new_id,
          row_name = text_val (param_at ps 1),
          row_type = text_val (param_at ps 2),
          row_description = text_val (param_at ps 3),
          row_address_name = text_val (param_at ps 4),
          row_address = text_val (param_at ps 5),
          row_location = eval_locSql ps (ins_locSql stmt),
          row_start_time = ts_val s (param_at ps 6),
          row_end_time = ts_val s (param_at ps 7)\<rparr>)"

text \<open>
  The select list of \<open>GET /events\<close>, \<open>GET /admin/events\<close> and the duplicate route:
  \<open>ST_X\<close> of the location as \<open>lon\<close>, \<open>ST_Y\<close> as \<open>lat\<close>; both are \<open>NULL\<close> on a \<open>NULL\<close> location.
\<close>

definition ST_X :: "(jsnum \<times> jsnum) option \<Rightarrow> jsnum option" where
  "ST_X loc = map_option fst loc"

definition ST_Y :: "(jsnum \<times> jsnum) option \<Rightarrow> jsnum option" where
  "ST_Y loc = map_option snd loc"

definition read_row :: "event_row \<Rightarrow> event" where
  "read_row r =
     \<lparr>ev_name = row_name r, ev_type = row_type r, ev_description = row_description r,
      ev_address_name = row_address_name r, ev_address = row_address r,
      ev_lat = ST_Y (row_location r), ev_lon = ST_X (row_location r),
      ev_start_time = map_option Date (row_start_time r),
      ev_end_time = map_option Date (row_end_time r)\<rparr>"

definition duplicate_statement :: "event_row \<Rightarrow> insert_stmt" where
  "duplicate_statement r = insertEvent (read_row r)"

subsection \<open>Geocoding\<close>

text \<open>
  The lookup service answers with a list of candidates, each with a latitude and a
  longitude as text, or the request fails.
\<close>

datatype failure = Fetch_failed

definition geocodeIfNeeded ::
  "(string \<Rightarrow> (string \<times> string) list option) \<Rightarrow> string option \<Rightarrow> jsnum option \<Rightarrow> jsnum option
   \<Rightarrow> failure + (jsnum option \<times> jsnum option)"
where
  "geocodeIfNeeded nominatim address lat lon =
     (if lat \<noteq> None \<and> lon \<noteq> None then Inr (lat, lon)
      else case address of
             None \<Rightarrow> Inr (None, None)
           | Some a \<Rightarrow>
               if a = [] then Inr (None, None)
               else (case nominatim a of
                       None \<Rightarrow> Inl Fetch_failed
                     | Some [] \<Rightarrow> Inr (None, None)
                     | Some ((la, lo) # rest) \<Rightarrow> Inr (Some (parseFloat la), Some (parseFloat lo))))"

subsection \<open>\<open>PUT /admin/events/:id\<close>\<close>

record event_body =
  b_name :: "string option"
  b_type :: "string option"
  b_description :: "string option"
  b_address_name :: "string option"
  b_address :: "string option"
  b_lat :: "jsnum option"
  b_lon :: "jsnum option"
  b_start_time :: "string option"
  b_end_time :: "string option"
  b_recurrence :: "string option"
  b_recurrence_until :: "string option"

text \<open>
  The \<open>UPDATE\<close> statement: \<open>name=$1\<close> to \<open>end_time=$7\<close> are always set; \<open>setLoc\<close> holds the
  placeholders of the point when the location is set; \<open>WHERE id=$n\<close>.
\<close>

record update_stmt =
  upd_params :: "param list"
  upd_setLoc :: "(nat \<times> nat) option"
  upd_where :: nat

definition update_statement :: "string \<Rightarrow> event_body \<Rightarrow> jsnum option \<times> jsnum option \<Rightarrow> update_stmt" where
  "update_statement ident b geo =
     (let params = [to_param (b_name b), to_param (b_type b), or_null (b_description b),
                    or_null (b_address_name b), or_null (b_address b),
                    to_param (b_start_time b), or_null (b_end_time b)];
          (params', setLoc) =
            (case geo of
               (Some lat, Some lon) \<Rightarrow> (params @ [PNum lon, PNum lat], Some (8, 9))
             | _ \<Rightarrow> (params, None))
      in \<lparr>upd_params = params' @ [PText ident],
          upd_setLoc = setLoc,
          upd_where = (if setLoc \<noteq> None then 10 else 8)\<rparr>)"

datatype response =
    Status400 string
  | Status500 string
  | Ok_success
  | Ok_inserted nat

definition put_admin_event ::
  "(string \<Rightarrow> (string \<times> string) list option) \<Rightarrow> (update_stmt \<Rightarrow> bool) \<Rightarrow> string \<Rightarrow> event_body
   \<Rightarrow> response \<times> update_stmt option"
where
  "put_admin_event nominatim accepts ident b =
     (if \<not> truthy (b_name b) \<or> \<not> truthy (b_type b) \<or> \<not> truthy (b_start_time b)
      then (Status400 ''name, type, start_time are required'', None)
      else case geocodeIfNeeded nominatim (b_address b) (b_lat b) (b_lon b) of
             Inl f \<Rightarrow> (Status500 ''Server error'', None)
           | Inr geo \<Rightarrow>
               (let q = update_statement ident b geo
                in if accepts q then (Ok_success, Some q) else (Status500 ''Server error'', None)))"

text \<open>The effect of the statement on a row of the table.\<close>

definition exec_update :: "store \<Rightarrow> update_stmt \<Rightarrow> event_row \<Rightarrow> event_row" where
  "exec_update s u r =
     (let ps = upd_params u
      in if text_val (param_at ps (upd_where u)) = Some (row_id r) then
           \<lparr>row_id = row_id r,
            row_name = text_val (param_at ps 1),
            row_type = text_val (param_at ps 2),
            row_description = text_val (param_at ps 3),
            row_address_name = text_val (param_at ps 4),
            row_address = text_val (param_at ps 5),
            row_location =
              (case upd_setLoc u of
                 None \<Rightarrow> row_location r
               | Some (i, j) \<Rightarrow> eval_locSql ps (ST_MakePoint i j)),
            row_start_time = ts_val s (param_at ps 6),
            row_end_time = ts_val s (param_at ps 7)\<rparr>
         else r)"

subsection \<open>Creating events: \<open>POST /admin/events\<close> and \<open>POST /admin/import\<close>\<close>

text \<open>
  What a handler needs from outside: the time zone of the process, the reading of a text
  as a date by \<open>new Date\<close>, the lookup service, and whether the store accepts an
  \<open>INSERT\<close> (a refusal is an exception, caught at the end of the handler). The second
  component of a handler's result lists the statements the store has executed.
\<close>

record env =
  env_tz :: timezone
  env_parse_date :: "string \<Rightarrow> jsdate"
  env_nominatim :: "string \<Rightarrow> (string \<times> string) list option"
  env_accepts :: "insert_stmt \<Rightarrow> bool"

text \<open>
  The loop over the instances: \<open>Inr\<close> the executed statements when every insert went
  through, \<open>Inl\<close> those executed before the one that failed.
\<close>

fun insert_instances ::
  "(insert_stmt \<Rightarrow> bool) \<Rightarrow> (event_instance \<Rightarrow> event) \<Rightarrow> event_instance list \<Rightarrow> insert_stmt list
   \<Rightarrow> insert_stmt list + insert_stmt list"
where
  "insert_instances accepts mk [] executed = Inr executed"
| "insert_instances accepts mk (inst # insts) executed =
     (let q = insertEvent (mk inst)
      in if accepts q then insert_instances accepts mk insts (executed @ [q]) else Inl executed)"

definition recurrence_until_date :: "(string \<Rightarrow> jsdate) \<Rightarrow> string option \<Rightarrow> jsdate option" where
  "recurrence_until_date parse ru =
     (case ru of None \<Rightarrow> None | Some s \<Rightarrow> if s = [] then None else Some (parse s))"

definition post_admin_events :: "env \<Rightarrow> event_body \<Rightarrow> response \<times> insert_stmt list" where
  "post_admin_events e b =
     (if \<not> truthy (b_name b) \<or> \<not> truthy (b_type b) \<or> \<not> truthy (b_start_time b)
      then (Status400 ''name, type, start_time are required'', [])
      else case geocodeIfNeeded (env_nominatim e) (b_address b) (b_lat b) (b_lon b) of
             Inl f \<Rightarrow> (Status500 ''Server error'', [])
           | Inr geo \<Rightarrow>
               (let recurrence = (case b_recurrence b of None \<Rightarrow> ''none'' | Some r \<Rightarrow> r);
                    start = toTimestamp (env_parse_date e) (b_start_time b);
                    endt = toTimestamp (env_parse_date e) (b_end_time b);
                    instances = expand (env_tz e) start endt recurrence
                                  (recurrence_until_date (env_parse_date e) (b_recurrence_until b));
                    mk = (\<lambda>inst. \<lparr>ev_name = b_name b, ev_type = b_type b,
                                   ev_description = b_description b,
                                   ev_address_name = b_address_name b, ev_address = b_address b,
                                   ev_lat = fst geo, ev_lon = snd geo,
                                   ev_start_time = Some (fst inst), ev_end_time = snd inst\<rparr>)
                in case insert_instances (env_accepts e) mk instances [] of
                     Inl executed \<Rightarrow> (Status500 ''Server error'', executed)
                   | Inr executed \<Rightarrow> (Ok_inserted (length executed), executed)))"

text \<open>
  The body of the import is the text of the request, or nothing. \<open>csv.split(/\r?\n/)\<close>:
  a line ends at a line feed, or at a carriage return followed by a line feed.
\<close>

definition LF :: char where
  "LF = CHR 0x0A"

definition CR :: char where
  "CR = CHR 0x0D"

fun split_lines :: "string \<Rightarrow> string list" where
  "split_lines [] = [[]]"
| "split_lines (c # cs) =
     (if c = LF then [] # split_lines cs
      else if c = CR \<and> cs \<noteq> [] \<and> hd cs = LF then [] # split_lines (tl cs)
      else (case split_lines cs of [] \<Rightarrow> [[c]] | l # ls \<Rightarrow> (c # l) # ls))"

definition csv_lines :: "string option \<Rightarrow> string list" where
  "csv_lines body =
     (let csv = (case body of None \<Rightarrow> [] | Some s \<Rightarrow> s)
      in filter (\<lambda>l. l \<noteq> []) (split_lines csv))"

text \<open>
  \<open>Object.fromEntries(header.map((h, i) => [h, parts[i] ? parts[i].trim() : ""]))\<close>, and
  the reading of a property of that object: the last entry with the name counts.
\<close>

definition record_of :: "string list \<Rightarrow> string list \<Rightarrow> (string \<times> string) list" where
  "record_of header parts =
     map (\<lambda>(i, h). (h, if i < length parts \<and> parts ! i \<noteq> [] then trim (parts ! i) else []))
       (enumerate 0 header)"

definition rec_get :: "(string \<times> string) list \<Rightarrow> string \<Rightarrow> string option" where
  "rec_get r k = map_of (rev r) k"

text \<open>\<open>x || null\<close> as a value: the empty string becomes \<open>null\<close>.\<close>

definition nonempty :: "string option \<Rightarrow> string option" where
  "nonempty x = (case x of None \<Rightarrow> None | Some s \<Rightarrow> if s = [] then None else Some s)"

definition import_line :: "env \<Rightarrow> string list \<Rightarrow> string \<Rightarrow> insert_stmt list \<Rightarrow> insert_stmt list + insert_stmt list" where
  "import_line e header line executed =
     (let parts = split_on comma line;
          r = record_of header parts;
          address = nonempty (rec_get r ''address'');
          start_time = nonempty (rec_get r ''start_time'');
          end_time = nonempty (rec_get r ''end_time'');
          lat = map_option parseFloat (nonempty (rec_get r ''lat''));
          lon = map_option parseFloat (nonempty (rec_get r ''lon''))
      in case geocodeIfNeeded (env_nominatim e) address lat lon of
           Inl f \<Rightarrow> Inl executed
         | Inr geo \<Rightarrow>
             (let recurrence =
                    toLowerCase (case nonempty (rec_get r ''recurrence'') of
                                   None \<Rightarrow> ''none'' | Some x \<Rightarrow> x);
                  recurrence_until = nonempty (rec_get r ''recurrence_until'');
                  start = toTimestamp (env_parse_date e) start_time;
                  endt = toTimestamp (env_parse_date e) end_time;
                  instances = expand (env_tz e) start endt recurrence
                                (recurrence_until_date (env_parse_date e) recurrence_until);
                  mk = (\<lambda>inst. \<lparr>ev_name = rec_get r ''name'', ev_type = rec_get r ''type'',
                                 ev_description = nonempty (rec_get r ''description''),
                                 ev_address_name = nonempty (rec_get r ''address_name''),
                                 ev_address = address,
                                 ev_lat = fst geo, ev_lon = snd geo,
                                 ev_start_time = Some (fst inst), ev_end_time = snd inst\<rparr>)
              in insert_instances (env_accepts e) mk instances executed))"

fun import_lines :: "env \<Rightarrow> string list \<Rightarrow> string list \<Rightarrow> nat \<Rightarrow> insert_stmt list \<Rightarrow> response \<times> insert_stmt list" where
  "import_lines e header [] inserted executed = (Ok_inserted inserted, executed)"
| "import_lines e header (line # lines) inserted executed =
     (case import_line e header line executed of
        Inl executed' \<Rightarrow> (Status500 ''Server error'', executed')
      | Inr executed' \<Rightarrow> import_lines e header lines (inserted + (length executed' - length executed)) executed')"

definition post_admin_import :: "env \<Rightarrow> string option \<Rightarrow> response \<times> insert_stmt list" where
  "post_admin_import e body =
     (case csv_lines body of
        [] \<Rightarrow> (Status400 ''Empty CSV'', [])
      | first # lines \<Rightarrow>
          (let header = map (\<lambda>h. toLowerCase (trim h)) (split_on comma first)
           in case filter (\<lambda>r. r \<notin> set header) [''name'', ''type'', ''start_time''] of
                r # rs \<Rightarrow> (Status400 (''Missing column: '' @ r), [])
              | [] \<Rightarrow> import_lines e header lines 0 []))"

section \<open>Example inputs\<close>

text \<open>
  Concrete inputs for the checks at the end: a store whose clock shows 2024-06-01T00:00:00Z,
  which reads the two bounds of the evening of that day and whose distance predicate holds
  on equal points only; a row; a query with no parameter; a handler environment in UTC,
  which reads two dates, finds no address and accepts every insert; a body that creates a
  daily event for a year; a time zone that moves its offset from -5 h to -4 h on 2024-03-10
  at 07:00 UTC; a body for an update.
\<close>

definition example_store :: store where
  "example_store =
     \<lparr>st_now = 1717200000000,
      st_read_ts = (\<lambda>x. if x = ''2024-06-01 17:00:00'' then 1717261200000
                        else if x = ''2024-06-01 23:59:59'' then 1717286399000 else 0),
      st_dwithin = (\<lambda>a b d. a = b)\<rparr>"

definition example_row :: "string \<Rightarrow> int \<Rightarrow> (jsnum \<times> jsnum) option \<Rightarrow> event_row" where
  "example_row t start loc =
     \<lparr>row_id = ''7'', row_name = Some ''Tuesday special'', row_type = Some t,
      row_description = None, row_address_name = None, row_address = None,
      row_location = loc, row_start_time = Some start, row_end_time = None\<rparr>"

definition example_query :: query where
  "example_query =
     \<lparr>q_types = None, q_type = None, q_types_brackets = None, q_lat = None, q_lng = None,
      q_radius = None, q_date = None, q_timeOfDay = None\<rparr>"

definition example_env :: env where
  "example_env =
     \<lparr>env_tz = fixed_zone 0,
      env_parse_date = (\<lambda>x. if x = ''2024-01-01T00:00:00Z'' then Date 1704067200000
                            else if x = ''2025-01-01T00:00:00Z'' then Date 1735689600000
                            else Invalid_Date),
      env_nominatim = (\<lambda>a. Some []), env_accepts = (\<lambda>q. True)\<rparr>"

definition example_daily_body :: event_body where
  "example_daily_body =
     \<lparr>b_name = Some ''Happy Hour'', b_type = Some ''Drink Deals'', b_description = None,
      b_address_name = None, b_address = None, b_lat = None, b_lon = None,
      b_start_time = Some ''2024-01-01T00:00:00Z'', b_end_time = None,
      b_recurrence = Some ''daily'', b_recurrence_until = Some ''2025-01-01T00:00:00Z''\<rparr>"

definition example_dst_zone :: timezone where
  "example_dst_zone =
     \<lparr>LocalTZA_utc = (\<lambda>t. if t < 1710054000000 then - 18000000 else - 14400000),
      LocalTZA_local = (\<lambda>t. if t < 1710054000000 - 14400000 then - 18000000 else - 14400000)\<rparr>"

definition example_body :: event_body where
  "example_body =
     \<lparr>b_name = Some ''Trivia Night'', b_type = Some ''Trivia'', b_description = Some '''',
      b_address_name = Some ''The Pub'', b_address = Some ''1 Nowhere Street'',
      b_lat = None, b_lon = None, b_start_time = Some ''2024-06-01 17:00:00'', b_end_time = None,
      b_recurrence = None, b_recurrence_until = None\<rparr>"

section \<open>Properties of the recurrence expansion\<close>

text \<open>The loop never returns more than 201 instances when it starts with at most 200.\<close>

lemma expand_loop_length_le:
  "length acc \<le> 200 \<Longrightarrow> length (expand_loop step until cs ce acc) \<le> 201"
proof (induction step until cs ce acc rule: expand_loop.induct)
  case (1 step until cs ce acc)
  show ?case
  proof (cases "js_le cs until \<and> \<not> length (acc @ [(cs, ce)]) > 200")
    case True
    then have "expand_loop step until cs ce acc =
               expand_loop step until (step cs) (map_option step ce) (acc @ [(cs, ce)])"
      by (subst expand_loop.simps) simp
    moreover have "length (expand_loop step until (step cs) (map_option step ce) (acc @ [(cs, ce)]))
                   \<le> 201"
      using True "1.IH" by simp
    ultimately show ?thesis by simp
  next
    case False
    then show ?thesis
      using "1.prems" by (subst expand_loop.simps) auto
  qed
qed

text \<open>
  As long as the comparison holds and the cap is not reached, \<open>k\<close> rounds of the loop push
  the \<open>k\<close> next instances.
\<close>

lemma expand_loop_run:
  "\<forall>i<k. js_le ((step ^^ i) cs) until \<Longrightarrow> length acc + k \<le> 200 \<Longrightarrow>
   expand_loop step until cs ce acc =
   expand_loop step until ((step ^^ k) cs) (map_option (step ^^ k) ce)
     (acc @ map (\<lambda>i. ((step ^^ i) cs, map_option (step ^^ i) ce)) [0..<k])"
proof (induction k arbitrary: cs ce acc)
  case 0
  have "map_option (\<lambda>a. a) ce = ce" by (cases ce) simp_all
  then show ?case by simp
next
  case (Suc k)
  have le0: "js_le cs until" using Suc.prems(1) by force
  have step1: "expand_loop step until cs ce acc =
        expand_loop step until (step cs) (map_option step ce) (acc @ [(cs, ce)])"
    using le0 Suc.prems(2) by (subst expand_loop.simps) simp
  have "\<forall>i<k. js_le ((step ^^ i) (step cs)) until"
  proof (intro allI impI)
    fix i assume "i < k"
    then have "js_le ((step ^^ Suc i) cs) until" using Suc.prems(1) by blast
    then show "js_le ((step ^^ i) (step cs)) until" by (simp add: funpow_swap1)
  qed
  moreover have "length (acc @ [(cs, ce)]) + k \<le> 200" using Suc.prems(2) by simp
  ultimately have "expand_loop step until (step cs) (map_option step ce) (acc @ [(cs, ce)]) =
     expand_loop step until ((step ^^ k) (step cs)) (map_option (step ^^ k) (map_option step ce))
       ((acc @ [(cs, ce)]) @ map (\<lambda>i. ((step ^^ i) (step cs), map_option (step ^^ i) (map_option step ce))) [0..<k])"
    by (rule Suc.IH)
  moreover have "map (\<lambda>i. ((step ^^ i) cs, map_option (step ^^ i) ce)) [0..<Suc k]
      = (cs, ce) # map (\<lambda>i. ((step ^^ i) (step cs), map_option (step ^^ i) (map_option step ce))) [0..<k]"
  proof -
    have "[0..<Suc k] = 0 # map Suc [0..<k]"
      by (simp add: upt_conv_Cons map_Suc_upt del: upt_Suc)
    then show ?thesis
      by (simp add: funpow_swap1 option.map_comp o_def option.map_ident option.map_id del: upt_Suc)
  qed
  ultimately show ?case using step1
    by (simp add: funpow_swap1 option.map_comp o_def del: upt_Suc)
qed


lemma expand_loop_stop:
  assumes "\<forall>i<k. js_le ((step ^^ i) cs) until"
      and "\<not> js_le ((step ^^ k) cs) until"
      and "length acc + k \<le> 200"
  shows "expand_loop step until cs ce acc =
         acc @ map (\<lambda>i. ((step ^^ i) cs, map_option (step ^^ i) ce)) [0..<k]"
proof -
  have "expand_loop step until ((step ^^ k) cs) (map_option (step ^^ k) ce)
          (acc @ map (\<lambda>i. ((step ^^ i) cs, map_option (step ^^ i) ce)) [0..<k])
        = acc @ map (\<lambda>i. ((step ^^ i) cs, map_option (step ^^ i) ce)) [0..<k]"
    using assms(2) by (subst expand_loop.simps) simp
  then show ?thesis
    using expand_loop_run [OF assms(1) assms(3)] by simp
qed

lemma expand_loop_cap:
  assumes "\<forall>i<201. js_le ((step ^^ i) cs) until"
  shows "expand_loop step until cs ce [] =
         map (\<lambda>i. ((step ^^ i) cs, map_option (step ^^ i) ce)) [0..<201]"
proof -
  have a: "\<forall>i<200. js_le ((step ^^ i) cs) until" using assms by simp
  have b: "js_le ((step ^^ 200) cs) until" using assms by simp
  have "expand_loop step until cs ce [] =
        expand_loop step until ((step ^^ 200) cs) (map_option (step ^^ 200) ce)
          ([] @ map (\<lambda>i. ((step ^^ i) cs, map_option (step ^^ i) ce)) [0..<200])"
    by (rule expand_loop_run [OF a]) simp
  also have "\<dots> = map (\<lambda>i. ((step ^^ i) cs, map_option (step ^^ i) ce)) [0..<200]
                 @ [((step ^^ 200) cs, map_option (step ^^ 200) ce)]"
    using b by (subst expand_loop.simps) simp
  also have "\<dots> = map (\<lambda>i. ((step ^^ i) cs, map_option (step ^^ i) ce)) ([0..<200] @ [200])"
    by simp
  also have "[0..<200] @ [200] = [0..<201::nat]"
    using upt_Suc_append [of 0 200] by simp
  finally show ?thesis .
qed


text \<open>In a time zone of constant offset, \<open>addDays\<close> adds whole days of 86400000 ms.\<close>

lemma addDays_fixed:
  "- maxTime \<le> t + n * msPerDay \<Longrightarrow> t + n * msPerDay \<le> maxTime \<Longrightarrow>
   addDays (fixed_zone c) (Some (Date t)) n = Date (t + n * msPerDay)"
  by (simp add: addDays_def new_Date_def setDate_plus_def fixed_zone_def TimeClip_def)

lemma addDays_Invalid: "addDays tz (Some Invalid_Date) n = Invalid_Date"
  by (simp add: addDays_def new_Date_def setDate_plus_def)

lemma funpow_addDays_fixed:
  assumes "0 \<le> n" "- maxTime \<le> t" "t + int k * (n * msPerDay) \<le> maxTime"
  shows "((\<lambda>d. addDays (fixed_zone c) (Some d) n) ^^ k) (Date t) = Date (t + int k * (n * msPerDay))"
  using assms
proof (induction k)
  case 0
  then show ?case by simp
next
  case (Suc k)
  have pos: "0 \<le> n * msPerDay" using Suc.prems(1) by (simp add: msPerDay_def)
  have le: "int k * (n * msPerDay) \<le> int (Suc k) * (n * msPerDay)"
    using pos by (simp add: distrib_right)
  have nn: "0 \<le> int k * (n * msPerDay)" using pos by simp
  have ih: "((\<lambda>d. addDays (fixed_zone c) (Some d) n) ^^ k) (Date t) = Date (t + int k * (n * msPerDay))"
    using Suc.IH Suc.prems le by linarith
  have eq: "int (Suc k) * (n * msPerDay) = int k * (n * msPerDay) + n * msPerDay"
    by (simp add: distrib_right)
  have "addDays (fixed_zone c) (Some (Date (t + int k * (n * msPerDay)))) n
        = Date (t + int k * (n * msPerDay) + n * msPerDay)"
  proof (rule addDays_fixed)
    show "- maxTime \<le> t + int k * (n * msPerDay) + n * msPerDay"
      using Suc.prems(2) nn pos by linarith
    show "t + int k * (n * msPerDay) + n * msPerDay \<le> maxTime"
      using Suc.prems(3) eq by linarith
  qed
  then show ?case using ih by (simp add: distrib_right add.assoc)
qed

text \<open>
  The same where the offset of the zone is constant over the days stepped through.
\<close>

lemma addDays_const:
  assumes "LocalTZA_utc tz t = c" and "LocalTZA_local tz (t + n * msPerDay + c) = c"
      and "- maxTime \<le> t + n * msPerDay" and "t + n * msPerDay \<le> maxTime"
  shows "addDays tz (Some (Date t)) n = Date (t + n * msPerDay)"
proof -
  have "t + c + n * msPerDay = t + n * msPerDay + c" by linarith
  then have l: "LocalTZA_local tz (t + c + n * msPerDay) = c"
    using assms(2) by metis
  show ?thesis
    using assms(1,3,4) by (simp add: addDays_def new_Date_def setDate_plus_def TimeClip_def Let_def l)
qed

lemma funpow_addDays_const:
  assumes "0 \<le> n" and "- maxTime \<le> t" and "t + int k * (n * msPerDay) \<le> maxTime"
      and "\<forall>u. t \<le> u \<and> u \<le> t + int k * (n * msPerDay) \<longrightarrow>
             LocalTZA_utc tz u = c \<and> LocalTZA_local tz (u + c) = c"
  shows "((\<lambda>d. addDays tz (Some d) n) ^^ k) (Date t) = Date (t + int k * (n * msPerDay))"
  using assms
proof (induction k)
  case 0
  then show ?case by simp
next
  case (Suc k)
  have pos: "0 \<le> n * msPerDay" using Suc.prems(1) by (simp add: msPerDay_def)
  have nn: "0 \<le> int k * (n * msPerDay)" using pos by simp
  have eq: "int (Suc k) * (n * msPerDay) = int k * (n * msPerDay) + n * msPerDay"
    by (simp add: distrib_right)
  have ih: "((\<lambda>d. addDays tz (Some d) n) ^^ k) (Date t) = Date (t + int k * (n * msPerDay))"
  proof (rule Suc.IH)
    show "t + int k * (n * msPerDay) \<le> maxTime" using Suc.prems(3) eq pos by linarith
    show "\<forall>u. t \<le> u \<and> u \<le> t + int k * (n * msPerDay) \<longrightarrow>
             LocalTZA_utc tz u = c \<and> LocalTZA_local tz (u + c) = c"
    proof (intro allI impI)
      fix u assume "t \<le> u \<and> u \<le> t + int k * (n * msPerDay)"
      then have "t \<le> u \<and> u \<le> t + int (Suc k) * (n * msPerDay)" using eq pos by linarith
      then show "LocalTZA_utc tz u = c \<and> LocalTZA_local tz (u + c) = c"
        using Suc.prems(4) by blast
    qed
  qed (use Suc.prems in simp_all)
  have "t \<le> t + int k * (n * msPerDay) \<and>
        t + int k * (n * msPerDay) \<le> t + int (Suc k) * (n * msPerDay)"
    using eq pos nn by linarith
  then have o1: "LocalTZA_utc tz (t + int k * (n * msPerDay)) = c"
    using Suc.prems(4) by blast
  have "t \<le> t + int k * (n * msPerDay) + n * msPerDay \<and>
        t + int k * (n * msPerDay) + n * msPerDay \<le> t + int (Suc k) * (n * msPerDay)"
    using eq pos nn by linarith
  then have o2: "LocalTZA_local tz (t + int k * (n * msPerDay) + n * msPerDay + c) = c"
    using Suc.prems(4) by blast
  have "addDays tz (Some (Date (t + int k * (n * msPerDay)))) n
        = Date (t + int k * (n * msPerDay) + n * msPerDay)"
  proof (rule addDays_const [OF o1 o2])
    show "- maxTime \<le> t + int k * (n * msPerDay) + n * msPerDay"
      using Suc.prems(2) nn pos by linarith
    show "t + int k * (n * msPerDay) + n * msPerDay \<le> maxTime"
      using Suc.prems(3) eq by linarith
  qed
  then show ?case using ih by (simp add: distrib_right add.assoc)
qed

lemma funpow_addDays_Invalid:
  "((\<lambda>d. addDays tz (Some d) n) ^^ k) Invalid_Date = Invalid_Date"
  by (induction k) (simp_all add: addDays_Invalid)


lemma copy_end: "(case endt of None \<Rightarrow> None | Some e \<Rightarrow> Some (new_Date (Some e))) = endt"
  by (cases endt) (simp_all add: new_Date_def)

lemma expand_length_le: "length (expand tz start endt recurrence recurrence_until) \<le> 201"
  by (simp add: expand_def Let_def expand_loop_length_le split: option.split)

text \<open>A daily recurrence over one year, in UTC, reaches the cap after 201 instances.\<close>

lemma expand_daily_one_year:
  "expand (fixed_zone 0) (Some (Date 1704067200000)) None ''daily'' (Some (Date 1735689600000)) =
     map (\<lambda>i. (Date (1704067200000 + int i * msPerDay), None)) [0..<201]"
proof -
  let ?step = "\<lambda>d. addDays (fixed_zone 0) (Some d) 1"
  have pow: "(?step ^^ i) (Date 1704067200000) = Date (1704067200000 + int i * (1 * msPerDay))"
    if "i < 201" for i
  proof (rule funpow_addDays_fixed)
    show "1704067200000 + int i * (1 * msPerDay) \<le> maxTime"
      using that by (simp add: msPerDay_def maxTime_def)
  qed (simp_all add: maxTime_def)
  have "\<forall>i<201. js_le ((?step ^^ i) (Date 1704067200000)) (Some (Date 1735689600000))"
    by (simp add: pow js_le_def msPerDay_def)
  then have "expand_loop ?step (Some (Date 1735689600000)) (Date 1704067200000) None [] =
     map (\<lambda>i. ((?step ^^ i) (Date 1704067200000), map_option (?step ^^ i) None)) [0..<201]"
    by (rule expand_loop_cap)
  also have "\<dots> = map (\<lambda>i. (Date (1704067200000 + int i * msPerDay), None)) [0..<201]"
    by (rule map_cong) (simp_all add: pow)
  finally show ?thesis
    by (simp add: expand_def step_of_def until_of_def new_Date_def)
qed

text \<open>
  C1. The claim is that the expansion never produces more than 200 instances. The loop
  tests \<open>instances.length > 200\<close> after the push, so it stops at 201: on a server in UTC,
  a daily recurrence from 2024-01-01T00:00:00Z until 2025-01-01T00:00:00Z expands to 201
  instances. (\<open>expand_length_le\<close> above: 201 is the bound that holds for every input.)
\<close>

theorem expand_daily_one_year_201:
  "length (expand (fixed_zone 0) (Some (Date 1704067200000)) None ''daily''
             (Some (Date 1735689600000))) = 201"
  by (simp add: expand_daily_one_year)

text \<open>
  C7. Where the offset of the time zone does not change from the start to nine weeks
  after it (stepping by calendar days is then exact), for a valid start whose eighth week
  is still a valid date, and no explicit until: the default until of a weekly recurrence
  is the start plus 56 days, and the expansion has exactly nine instances, whose starts are
  the start moved by 0, 7, ..., 56 days. When the offset does not change over the eight
  weeks after the end either, the ends are the end moved by the same days.
\<close>

theorem expand_weekly_default_until:
  assumes "- maxTime \<le> t" and "t + 56 * msPerDay \<le> maxTime"
      and "\<forall>u. t \<le> u \<and> u \<le> t + 63 * msPerDay \<longrightarrow>
             LocalTZA_utc tz u = c \<and> LocalTZA_local tz (u + c) = c"
  shows "until_of tz (Some (Date t)) ''weekly'' None = Some (Date (t + 56 * msPerDay)) \<and>
         length (expand tz (Some (Date t)) endt ''weekly'' None) = 9 \<and>
         map fst (expand tz (Some (Date t)) endt ''weekly'' None) =
           map (\<lambda>k. Date (t + int k * (7 * msPerDay))) [0..<9] \<and>
         ((\<forall>e. endt = Some (Date e) \<longrightarrow>
             - maxTime \<le> e \<and> e + 56 * msPerDay \<le> maxTime \<and>
             (\<forall>u. e \<le> u \<and> u \<le> e + 56 * msPerDay \<longrightarrow>
                  LocalTZA_utc tz u = c' \<and> LocalTZA_local tz (u + c') = c')) \<longrightarrow>
          expand tz (Some (Date t)) endt ''weekly'' None =
            map (\<lambda>k. (Date (t + int k * (7 * msPerDay)),
                      map_option (plus_ms (int k * (7 * msPerDay))) endt)) [0..<9])"
proof -
  let ?step = "\<lambda>d. addWeeks tz (Some d) 1"
  have step_eq: "?step = (\<lambda>d. addDays tz (Some d) 7)"
    by (simp add: addWeeks_def)
  have d: "0 < msPerDay" by (simp add: msPerDay_def)
  have "t \<le> t \<and> t \<le> t + 63 * msPerDay" using d by linarith
  then have o0: "LocalTZA_utc tz t = c" using assms(3) by blast
  have "t \<le> t + 56 * msPerDay \<and> t + 56 * msPerDay \<le> t + 63 * msPerDay" using d by linarith
  then have o56: "LocalTZA_local tz (t + 56 * msPerDay + c) = c"
       "LocalTZA_utc tz (t + 56 * msPerDay) = c"
    using assms(3) by blast+
  have "t \<le> t + 56 * msPerDay + 7 * msPerDay \<and> t + 56 * msPerDay + 7 * msPerDay \<le> t + 63 * msPerDay"
    using d by linarith
  then have o63: "LocalTZA_local tz (t + 56 * msPerDay + 7 * msPerDay + c) = c"
    using assms(3) by blast
  have until: "until_of tz (Some (Date t)) ''weekly'' None = Some (Date (t + 56 * msPerDay))"
    using addDays_const [OF o0 o56(1)] assms(1,2) d
    by (simp add: until_of_def addWeeks_def)
  have pow: "(?step ^^ i) (Date t) = Date (t + int i * (7 * msPerDay))" if "i \<le> 8" for i
    unfolding step_eq
  proof (rule funpow_addDays_const)
    have b: "int i * (7 * msPerDay) \<le> 56 * msPerDay" using that by (simp add: msPerDay_def)
    then show "t + int i * (7 * msPerDay) \<le> maxTime" using assms(2) by linarith
    show "\<forall>u. t \<le> u \<and> u \<le> t + int i * (7 * msPerDay) \<longrightarrow>
             LocalTZA_utc tz u = c \<and> LocalTZA_local tz (u + c) = c"
    proof (intro allI impI)
      fix u assume "t \<le> u \<and> u \<le> t + int i * (7 * msPerDay)"
      then have "t \<le> u \<and> u \<le> t + 63 * msPerDay" using b d by linarith
      then show "LocalTZA_utc tz u = c \<and> LocalTZA_local tz (u + c) = c"
        using assms(3) by blast
    qed
  qed (simp_all add: assms(1))
  have le: "\<forall>i<9. js_le ((?step ^^ i) (Date t)) (Some (Date (t + 56 * msPerDay)))"
    by (simp add: pow js_le_def msPerDay_def)
  have nle: "\<not> js_le ((?step ^^ 9) (Date t)) (Some (Date (t + 56 * msPerDay)))"
  proof -
    have "(?step ^^ 9) (Date t) = ?step ((?step ^^ 8) (Date t))"
      by (simp add: numeral_eq_Suc)
    also have "\<dots> = addDays tz (Some (Date (t + 56 * msPerDay))) 7"
      using pow [of 8] by (simp add: addWeeks_def)
    finally have s9: "(?step ^^ 9) (Date t) = addDays tz (Some (Date (t + 56 * msPerDay))) 7" .
    have "t + 56 * msPerDay + c + 7 * msPerDay = t + 56 * msPerDay + 7 * msPerDay + c" by linarith
    then have "LocalTZA_local tz (t + 56 * msPerDay + c + 7 * msPerDay) = c"
      using o63 by metis
    then have "(?step ^^ 9) (Date t) = Invalid_Date \<or>
               (?step ^^ 9) (Date t) = Date (t + 56 * msPerDay + 7 * msPerDay)"
      unfolding s9 using o56(2)
      by (simp add: addDays_def new_Date_def setDate_plus_def TimeClip_def Let_def)
    then show ?thesis using d by (auto simp: js_le_def)
  qed
  have "expand_loop ?step (Some (Date (t + 56 * msPerDay))) (Date t) endt [] =
        [] @ map (\<lambda>i. ((?step ^^ i) (Date t), map_option (?step ^^ i) endt)) [0..<9]"
    by (rule expand_loop_stop [OF le nle]) simp
  then have ex: "expand tz (Some (Date t)) endt ''weekly'' None =
        map (\<lambda>i. ((?step ^^ i) (Date t), map_option (?step ^^ i) endt)) [0..<9]"
    using until by (simp add: expand_def step_of_def copy_end new_Date_def del: upt_Suc)
  have len: "length (expand tz (Some (Date t)) endt ''weekly'' None) = 9"
    unfolding ex by simp
  have starts: "map fst (expand tz (Some (Date t)) endt ''weekly'' None) =
           map (\<lambda>k. Date (t + int k * (7 * msPerDay))) [0..<9]"
    unfolding ex by (simp add: pow o_def del: upt_Suc)
  have full: "expand tz (Some (Date t)) endt ''weekly'' None =
            map (\<lambda>k. (Date (t + int k * (7 * msPerDay)),
                      map_option (plus_ms (int k * (7 * msPerDay))) endt)) [0..<9]"
    if h: "\<forall>e. endt = Some (Date e) \<longrightarrow>
             - maxTime \<le> e \<and> e + 56 * msPerDay \<le> maxTime \<and>
             (\<forall>u. e \<le> u \<and> u \<le> e + 56 * msPerDay \<longrightarrow>
                  LocalTZA_utc tz u = c' \<and> LocalTZA_local tz (u + c') = c')"
  proof -
    have powe: "map_option (?step ^^ i) endt = map_option (plus_ms (int i * (7 * msPerDay))) endt"
      if "i \<le> 8" for i
    proof (cases endt)
      case None
      then show ?thesis by simp
    next
      case (Some x)
      show ?thesis
      proof (cases x)
        case Invalid_Date
        then show ?thesis using Some unfolding step_eq by (simp add: funpow_addDays_Invalid)
      next
        case (Date e)
        then have r: "- maxTime \<le> e" "e + 56 * msPerDay \<le> maxTime"
          and o: "\<forall>u. e \<le> u \<and> u \<le> e + 56 * msPerDay \<longrightarrow>
                  LocalTZA_utc tz u = c' \<and> LocalTZA_local tz (u + c') = c'"
          using h Some by auto
        have b: "int i * (7 * msPerDay) \<le> 56 * msPerDay" using that by (simp add: msPerDay_def)
        have "((\<lambda>d. addDays tz (Some d) 7) ^^ i) (Date e) = Date (e + int i * (7 * msPerDay))"
        proof (rule funpow_addDays_const)
          show "e + int i * (7 * msPerDay) \<le> maxTime" using b r(2) by linarith
          show "\<forall>u. e \<le> u \<and> u \<le> e + int i * (7 * msPerDay) \<longrightarrow>
                  LocalTZA_utc tz u = c' \<and> LocalTZA_local tz (u + c') = c'"
          proof (intro allI impI)
            fix u assume "e \<le> u \<and> u \<le> e + int i * (7 * msPerDay)"
            then have "e \<le> u \<and> u \<le> e + 56 * msPerDay" using b by linarith
            then show "LocalTZA_utc tz u = c' \<and> LocalTZA_local tz (u + c') = c'"
              using o by blast
          qed
        qed (simp_all add: r(1))
        then show ?thesis using Some Date unfolding step_eq by simp
      qed
    qed
    show ?thesis unfolding ex by (simp add: pow powe del: upt_Suc)
  qed
  from until len starts full show ?thesis by blast
qed

text \<open>Without a step the until bound plays no part.\<close>

lemma expand_none_ignores_until:
  "expand tz start endt ''none'' recurrence_until = [(new_Date start, endt)]"
  by (simp add: expand_def step_of_def copy_end)

text \<open>
  C8. When the explicit until is before the start, the recurrence \<open>none\<close> still gives the
  one instance of the start and the end, and the recurrences \<open>daily\<close> and \<open>weekly\<close> give
  no instance at all.
\<close>

theorem expand_until_before_start:
  assumes "u < s"
  shows "expand tz (Some (Date s)) endt ''none'' (Some (Date u)) = [(Date s, endt)] \<and>
         expand tz (Some (Date s)) endt ''daily'' (Some (Date u)) = [] \<and>
         expand tz (Some (Date s)) endt ''weekly'' (Some (Date u)) = []"
proof -
  have "\<not> js_le (Date s) (Some (Date u))" using assms by (simp add: js_le_def)
  then have "expand_loop step (Some (Date u)) (Date s) endt [] = []" for step
    by (subst expand_loop.simps) simp
  then show ?thesis
    by (simp add: expand_def step_of_def until_of_def copy_end new_Date_def)
qed


text \<open>
  The weekly expansion from 2024-01-01T00:00:00Z with an end one hour later, in UTC: the
  default until is 2024-02-26T00:00:00Z. And in the zone that changes its offset on
  2024-03-10, from 2024-04-01T00:00:00Z, after the change: again nine instances.
\<close>

theorem expand_weekly_default_until_witness:
  "- maxTime \<le> 1704067200000 \<and> 1704067200000 + 56 * msPerDay \<le> maxTime \<and>
   - maxTime \<le> 1704070800000 \<and> 1704070800000 + 56 * msPerDay \<le> maxTime \<and>
   until_of (fixed_zone 0) (Some (Date 1704067200000)) ''weekly'' None = Some (Date 1708905600000) \<and>
   expand (fixed_zone 0) (Some (Date 1704067200000)) (Some (Date 1704070800000)) ''weekly'' None =
     [(Date 1704067200000, Some (Date 1704070800000)),
      (Date 1704672000000, Some (Date 1704675600000)),
      (Date 1705276800000, Some (Date 1705280400000)),
      (Date 1705881600000, Some (Date 1705885200000)),
      (Date 1706486400000, Some (Date 1706490000000)),
      (Date 1707091200000, Some (Date 1707094800000)),
      (Date 1707696000000, Some (Date 1707699600000)),
      (Date 1708300800000, Some (Date 1708304400000)),
      (Date 1708905600000, Some (Date 1708909200000))] \<and>
   until_of example_dst_zone (Some (Date 1711929600000)) ''weekly'' None = Some (Date 1716768000000) \<and>
   length (expand example_dst_zone (Some (Date 1711929600000)) (Some (Date 1711933200000))
             ''weekly'' None) = 9 \<and>
   expand example_dst_zone (Some (Date 1711929600000)) (Some (Date 1711933200000)) ''weekly'' None ! 8 =
     (Date 1716768000000, Some (Date 1716771600000))"
proof -
  have r1: "- maxTime \<le> 1704067200000" "1704067200000 + 56 * msPerDay \<le> maxTime"
    and r2: "- maxTime \<le> 1704070800000" "1704070800000 + 56 * msPerDay \<le> maxTime"
    and r3: "- maxTime \<le> 1711929600000" "1711929600000 + 56 * msPerDay \<le> maxTime"
    by (simp_all add: msPerDay_def maxTime_def)
  have h1: "\<forall>u. 1704067200000 \<le> u \<and> u \<le> 1704067200000 + 63 * msPerDay \<longrightarrow>
              LocalTZA_utc (fixed_zone 0) u = 0 \<and> LocalTZA_local (fixed_zone 0) (u + 0) = 0"
    by (simp add: fixed_zone_def)
  have e1: "\<forall>e. Some (Date 1704070800000) = Some (Date e) \<longrightarrow>
              - maxTime \<le> e \<and> e + 56 * msPerDay \<le> maxTime \<and>
              (\<forall>u. e \<le> u \<and> u \<le> e + 56 * msPerDay \<longrightarrow>
                   LocalTZA_utc (fixed_zone 0) u = 0 \<and> LocalTZA_local (fixed_zone 0) (u + 0) = 0)"
    by (simp add: fixed_zone_def msPerDay_def maxTime_def)
  have h2: "\<forall>u. 1711929600000 \<le> u \<and> u \<le> 1711929600000 + 63 * msPerDay \<longrightarrow>
              LocalTZA_utc example_dst_zone u = - 14400000 \<and>
              LocalTZA_local example_dst_zone (u + - 14400000) = - 14400000"
    by (simp add: example_dst_zone_def)
  have e2: "\<forall>e. Some (Date 1711933200000) = Some (Date e) \<longrightarrow>
              - maxTime \<le> e \<and> e + 56 * msPerDay \<le> maxTime \<and>
              (\<forall>u. e \<le> u \<and> u \<le> e + 56 * msPerDay \<longrightarrow>
                   LocalTZA_utc example_dst_zone u = - 14400000 \<and>
                   LocalTZA_local example_dst_zone (u + - 14400000) = - 14400000)"
    by (simp add: example_dst_zone_def msPerDay_def maxTime_def)
  have a: "until_of (fixed_zone 0) (Some (Date 1704067200000)) ''weekly'' None =
             Some (Date (1704067200000 + 56 * msPerDay)) \<and>
           expand (fixed_zone 0) (Some (Date 1704067200000)) (Some (Date 1704070800000)) ''weekly'' None =
             map (\<lambda>k. (Date (1704067200000 + int k * (7 * msPerDay)),
                       map_option (plus_ms (int k * (7 * msPerDay))) (Some (Date 1704070800000))))
               [0..<9]"
    using expand_weekly_default_until [OF r1 h1, where endt = "Some (Date 1704070800000)" and c' = 0] e1
    by blast
  have b: "until_of example_dst_zone (Some (Date 1711929600000)) ''weekly'' None =
             Some (Date (1711929600000 + 56 * msPerDay)) \<and>
           expand example_dst_zone (Some (Date 1711929600000)) (Some (Date 1711933200000)) ''weekly'' None =
             map (\<lambda>k. (Date (1711929600000 + int k * (7 * msPerDay)),
                       map_option (plus_ms (int k * (7 * msPerDay))) (Some (Date 1711933200000))))
               [0..<9]"
    using expand_weekly_default_until [OF r3 h2, where endt = "Some (Date 1711933200000)"
            and c' = "- 14400000"] e2
    by blast
  show ?thesis
    using r1 r2 by (simp add: a b) (simp add: msPerDay_def upt_rec)
qed

text \<open>A start on 2024-02-01 with an until on 2024-01-01, in UTC.\<close>

theorem expand_until_before_start_witness:
  "(1704067200000::int) < 1706745600000 \<and>
   expand (fixed_zone 0) (Some (Date 1706745600000)) None ''none'' (Some (Date 1704067200000))
     = [(Date 1706745600000, None)] \<and>
   expand (fixed_zone 0) (Some (Date 1706745600000)) None ''daily'' (Some (Date 1704067200000)) = [] \<and>
   expand (fixed_zone 0) (Some (Date 1706745600000)) None ''weekly'' (Some (Date 1704067200000)) = []"
  using expand_until_before_start [of 1704067200000 1706745600000 "fixed_zone 0" None]
  by simp

lemma insert_instances_accepted:
  "\<forall>q. accepts q \<Longrightarrow>
   insert_instances accepts mk insts executed = Inr (executed @ map (\<lambda>i. insertEvent (mk i)) insts)"
  by (induction insts arbitrary: executed) (simp_all add: Let_def)

text \<open>
  The same recurrence through the handler: \<open>POST /admin/events\<close> executes 201 inserts and
  answers \<open>inserted: 201\<close>.
\<close>

lemma post_admin_events_daily_one_year:
  "fst (post_admin_events example_env example_daily_body) = Ok_inserted 201 \<and>
   length (snd (post_admin_events example_env example_daily_body)) = 201"
proof -
  have e: "length (expand (fixed_zone 0) (Some (Date 1704067200000)) None ''daily''
             (Some (Date 1735689600000))) = 201"
    by (simp add: expand_daily_one_year)
  have v: "truthy (b_name example_daily_body)" "truthy (b_type example_daily_body)"
          "truthy (b_start_time example_daily_body)"
    by (simp_all add: truthy_def example_daily_body_def)
  have g: "geocodeIfNeeded (env_nominatim example_env) (b_address example_daily_body)
             (b_lat example_daily_body) (b_lon example_daily_body) = Inr (None, None)"
    by (simp add: geocodeIfNeeded_def example_daily_body_def)
  have x: "expand (env_tz example_env)
             (toTimestamp (env_parse_date example_env) (b_start_time example_daily_body))
             (toTimestamp (env_parse_date example_env) (b_end_time example_daily_body))
             (case b_recurrence example_daily_body of None \<Rightarrow> ''none'' | Some r \<Rightarrow> r)
             (recurrence_until_date (env_parse_date example_env) (b_recurrence_until example_daily_body))
           = expand (fixed_zone 0) (Some (Date 1704067200000)) None ''daily'' (Some (Date 1735689600000))"
    by (simp add: example_env_def example_daily_body_def toTimestamp_def recurrence_until_date_def)
  have a: "\<forall>q. env_accepts example_env q"
    by (simp add: example_env_def)
  have "post_admin_events example_env example_daily_body =
        (Ok_inserted 201,
         map (\<lambda>i. insertEvent \<lparr>ev_name = b_name example_daily_body, ev_type = b_type example_daily_body,
                   ev_description = b_description example_daily_body,
                   ev_address_name = b_address_name example_daily_body,
                   ev_address = b_address example_daily_body,
                   ev_lat = None, ev_lon = None,
                   ev_start_time = Some (fst i), ev_end_time = snd i\<rparr>)
           (expand (fixed_zone 0) (Some (Date 1704067200000)) None ''daily'' (Some (Date 1735689600000))))"
    unfolding post_admin_events_def Let_def x
    by (simp add: v g insert_instances_accepted [OF a] e)
  then show ?thesis using e by simp
qed

section \<open>Properties of insert, read and update\<close>

lemma param_at_simps:
  "param_at ps 0 = None"
  "param_at (p # ps) (Suc 0) = Some p"
  "param_at (p # ps) (Suc (Suc n)) = param_at ps (Suc n)"
  by (simp_all add: param_at_def)

lemma insertEvent_location:
  "eval_locSql (ins_params (insertEvent ev)) (ins_locSql (insertEvent ev)) =
     (case (ev_lat ev, ev_lon ev) of (Some lat, Some lon) \<Rightarrow> Some (lon, lat) | _ \<Rightarrow> None)"
  by (simp add: insertEvent_def eval_locSql_def param_at_def Let_def split: option.split)

text \<open>
  C2. The row an insert persists has a location exactly when the event has both a latitude
  and a longitude; the point is then built from the longitude first and the latitude second,
  and reading the row gives both back. Reading any row gives a longitude and a latitude
  that are both null or both non-null.
\<close>

theorem insert_location_iff_both_coordinates:
  "((row_location (inserted_row s new_id (insertEvent ev)) \<noteq> None) =
      (ev_lat ev \<noteq> None \<and> ev_lon ev \<noteq> None)) \<and>
   (ev_lat ev = Some lat \<and> ev_lon ev = Some lon \<longrightarrow>
      row_location (inserted_row s new_id (insertEvent ev)) = Some (lon, lat) \<and>
      ev_lon (read_row (inserted_row s new_id (insertEvent ev))) = Some lon \<and>
      ev_lat (read_row (inserted_row s new_id (insertEvent ev))) = Some lat) \<and>
   ((ev_lon (read_row r) = None) = (ev_lat (read_row r) = None))"
proof -
  have loc: "row_location (inserted_row s new_id (insertEvent ev)) =
      (case (ev_lat ev, ev_lon ev) of (Some lat, Some lon) \<Rightarrow> Some (lon, lat) | _ \<Rightarrow> None)"
    by (simp add: inserted_row_def Let_def insertEvent_location)
  have a: "(row_location (inserted_row s new_id (insertEvent ev)) \<noteq> None) =
      (ev_lat ev \<noteq> None \<and> ev_lon ev \<noteq> None)"
    unfolding loc by (simp split: option.split)
  have b: "ev_lat ev = Some lat \<and> ev_lon ev = Some lon \<longrightarrow>
      row_location (inserted_row s new_id (insertEvent ev)) = Some (lon, lat) \<and>
      ev_lon (read_row (inserted_row s new_id (insertEvent ev))) = Some lon \<and>
      ev_lat (read_row (inserted_row s new_id (insertEvent ev))) = Some lat"
    unfolding read_row_def by (simp add: loc ST_X_def ST_Y_def)
  have c: "(ev_lon (read_row r) = None) = (ev_lat (read_row r) = None)"
    by (simp add: read_row_def ST_X_def ST_Y_def)
  from a b c show ?thesis by blast
qed

text \<open>
  An event at latitude 35.2271, longitude -80.8431.
\<close>

theorem insert_location_iff_both_coordinates_witness:
  "ev_lat \<lparr>ev_name = Some ''Trivia Night'', ev_type = Some ''Trivia'', ev_description = None,
            ev_address_name = None, ev_address = None,
            ev_lat = Some (Num 35.2271), ev_lon = Some (Num (- 80.8431)),
            ev_start_time = Some (Date 1717264800000), ev_end_time = None\<rparr> = Some (Num 35.2271) \<and>
   ev_lon \<lparr>ev_name = Some ''Trivia Night'', ev_type = Some ''Trivia'', ev_description = None,
            ev_address_name = None, ev_address = None,
            ev_lat = Some (Num 35.2271), ev_lon = Some (Num (- 80.8431)),
            ev_start_time = Some (Date 1717264800000), ev_end_time = None\<rparr> = Some (Num (- 80.8431)) \<and>
   row_location (inserted_row \<lparr>st_now = 0, st_read_ts = (\<lambda>x. 0), st_dwithin = (\<lambda>a b d. True)\<rparr> ''7''
     (insertEvent \<lparr>ev_name = Some ''Trivia Night'', ev_type = Some ''Trivia'', ev_description = None,
            ev_address_name = None, ev_address = None,
            ev_lat = Some (Num 35.2271), ev_lon = Some (Num (- 80.8431)),
            ev_start_time = Some (Date 1717264800000), ev_end_time = None\<rparr>))
     = Some (Num (- 80.8431), Num 35.2271)"
  using insert_location_iff_both_coordinates
    [of "\<lparr>st_now = 0, st_read_ts = (\<lambda>x. 0), st_dwithin = (\<lambda>a b d. True)\<rparr>" "''7''"
        "\<lparr>ev_name = Some ''Trivia Night'', ev_type = Some ''Trivia'', ev_description = None,
            ev_address_name = None, ev_address = None,
            ev_lat = Some (Num 35.2271), ev_lon = Some (Num (- 80.8431)),
            ev_start_time = Some (Date 1717264800000), ev_end_time = None\<rparr>"
        "Num 35.2271" "Num (- 80.8431)"]
  by simp

lemma update_statement_params:
  "upd_params (update_statement ident b geo) =
     [to_param (b_name b), to_param (b_type b), or_null (b_description b),
      or_null (b_address_name b), or_null (b_address b),
      to_param (b_start_time b), or_null (b_end_time b)] @
     (case geo of (Some lat, Some lon) \<Rightarrow> [PNum lon, PNum lat] | _ \<Rightarrow> []) @ [PText ident]"
  by (simp add: update_statement_def Let_def split: option.split prod.split)

lemma text_val_to_param: "text_val (Some (to_param x)) = x"
  by (simp add: text_val_def to_param_def split: option.split)

lemma text_val_or_null: "text_val (Some (or_null x)) = nonempty x"
  by (simp add: text_val_def or_null_def nonempty_def split: option.split)

lemma ts_val_to_param: "ts_val s (Some (to_param x)) = map_option (st_read_ts s) x"
  by (simp add: ts_val_def to_param_def split: option.split)

lemma ts_val_or_null: "ts_val s (Some (or_null x)) = map_option (st_read_ts s) (nonempty x)"
  by (simp add: ts_val_def or_null_def nonempty_def split: option.split)

text \<open>
  C9. For an update that passes validation and whose geo resolution gives (lat, lon): when
  one of the two is null the statement does not set the location and the row keeps the
  location it had; when both are there the statement sets the point (lon, lat). In both
  cases name, type, description, address_name, address, start_time and end_time are
  rewritten from the body.
\<close>

theorem update_rewrites_location_only_with_coordinates:
  assumes "put_admin_event nominatim accepts ident b = (resp, Some q)"
      and "geocodeIfNeeded nominatim (b_address b) (b_lat b) (b_lon b) = Inr (lat, lon)"
      and "row_id r = ident"
  shows "(lat = None \<or> lon = None \<longrightarrow>
            upd_setLoc q = None \<and> row_location (exec_update s q r) = row_location r) \<and>
         (\<forall>la lo. lat = Some la \<and> lon = Some lo \<longrightarrow>
            upd_setLoc q = Some (8, 9) \<and> row_location (exec_update s q r) = Some (lo, la)) \<and>
         row_name (exec_update s q r) = b_name b \<and>
         row_type (exec_update s q r) = b_type b \<and>
         row_description (exec_update s q r) = nonempty (b_description b) \<and>
         row_address_name (exec_update s q r) = nonempty (b_address_name b) \<and>
         row_address (exec_update s q r) = nonempty (b_address b) \<and>
         row_start_time (exec_update s q r) = map_option (st_read_ts s) (b_start_time b) \<and>
         row_end_time (exec_update s q r) = map_option (st_read_ts s) (nonempty (b_end_time b))"
proof -
  have q: "q = update_statement ident b (lat, lon)"
    using assms(1,2) by (simp add: put_admin_event_def Let_def split: if_splits)
  have setLoc: "upd_setLoc q = (case (lat, lon) of (Some la, Some lo) \<Rightarrow> Some (8, 9) | _ \<Rightarrow> None)"
    unfolding q by (simp add: update_statement_def Let_def split: option.split)
  have wh: "upd_where q = (case (lat, lon) of (Some la, Some lo) \<Rightarrow> 10 | _ \<Rightarrow> 8)"
    unfolding q by (simp add: update_statement_def Let_def split: option.split)
  have ps: "upd_params q =
     [to_param (b_name b), to_param (b_type b), or_null (b_description b),
      or_null (b_address_name b), or_null (b_address b),
      to_param (b_start_time b), or_null (b_end_time b)] @
     (case (lat, lon) of (Some la, Some lo) \<Rightarrow> [PNum lo, PNum la] | _ \<Rightarrow> []) @ [PText ident]"
    unfolding q by (rule update_statement_params)
  have sel: "text_val (param_at (upd_params q) (upd_where q)) = Some (row_id r)"
    using assms(3) by (simp add: ps wh param_at_def text_val_def split: option.split)
  have p1: "param_at (upd_params q) (Suc 0) = Some (to_param (b_name b))"
    and p2: "param_at (upd_params q) 2 = Some (to_param (b_type b))"
    and p3: "param_at (upd_params q) 3 = Some (or_null (b_description b))"
    and p4: "param_at (upd_params q) 4 = Some (or_null (b_address_name b))"
    and p5: "param_at (upd_params q) 5 = Some (or_null (b_address b))"
    and p6: "param_at (upd_params q) 6 = Some (to_param (b_start_time b))"
    and p7: "param_at (upd_params q) 7 = Some (or_null (b_end_time b))"
    by (simp_all add: ps param_at_def)
  have loc_none: "upd_setLoc q = None \<and> row_location (exec_update s q r) = row_location r"
    if "lat = None \<or> lon = None"
    using that sel by (auto simp: exec_update_def Let_def setLoc split: option.split)
  have loc_some: "upd_setLoc q = Some (8, 9) \<and> row_location (exec_update s q r) = Some (lo, la)"
    if "lat = Some la \<and> lon = Some lo" for la lo
    using that sel by (simp add: exec_update_def Let_def setLoc eval_locSql_def ps param_at_def)
  have nm: "row_name (exec_update s q r) = b_name b"
    using sel by (simp add: exec_update_def Let_def p1 text_val_to_param)
  have ty: "row_type (exec_update s q r) = b_type b"
    using sel by (simp add: exec_update_def Let_def p2 text_val_to_param)
  have de: "row_description (exec_update s q r) = nonempty (b_description b)"
    using sel by (simp add: exec_update_def Let_def p3 text_val_or_null)
  have an: "row_address_name (exec_update s q r) = nonempty (b_address_name b)"
    using sel by (simp add: exec_update_def Let_def p4 text_val_or_null)
  have ad: "row_address (exec_update s q r) = nonempty (b_address b)"
    using sel by (simp add: exec_update_def Let_def p5 text_val_or_null)
  have st: "row_start_time (exec_update s q r) = map_option (st_read_ts s) (b_start_time b)"
    using sel by (simp add: exec_update_def Let_def p6 ts_val_to_param)
  have en: "row_end_time (exec_update s q r) = map_option (st_read_ts s) (nonempty (b_end_time b))"
    using sel by (simp add: exec_update_def Let_def p7 ts_val_or_null)
  from loc_none loc_some nm ty de an ad st en show ?thesis by blast
qed

section \<open>Properties of the query filters\<close>

subsection \<open>The type set\<close>

lemma split_on_not_Nil: "split_on c s \<noteq> []"
  by (induction s) (auto split: list.split)

lemma split_on_append_sep: "split_on c (x @ c # y) = split_on c x @ split_on c y"
proof (induction x)
  case Nil
  then show ?case by simp
next
  case (Cons a x)
  show ?case
  proof (cases "a = c")
    case True
    then show ?thesis using Cons.IH by simp
  next
    case False
    obtain w ws where w: "split_on c x = w # ws"
      using split_on_not_Nil [of c x] by (cases "split_on c x") auto
    then show ?thesis using False Cons.IH by simp
  qed
qed

lemma set_split_join:
  "insert [] (set (split_on comma (join_comma xs))) = insert [] (\<Union>x\<in>set xs. set (split_on comma x))"
proof (induction xs rule: join_comma.induct)
  case 1
  then show ?case by simp
next
  case (2 x)
  then show ?case by simp
next
  case (3 x y ys)
  have "set (split_on comma (join_comma (x # y # ys))) =
        set (split_on comma x) \<union> set (split_on comma (join_comma (y # ys)))"
    by (simp add: split_on_append_sep)
  then show ?case using "3.IH" by auto
qed

lemma set_split_String_js:
  "insert [] (set (split_on comma (String_js v))) = insert [] (\<Union>x\<in>set (supplied v). set (split_on comma x))"
proof (induction v)
  case (QStr s)
  then show ?case by simp
next
  case (QArr vs)
  have "insert [] (set (split_on comma (String_js (QArr vs)))) =
        insert [] (\<Union>x\<in>set (map String_js vs). set (split_on comma x))"
    by (simp add: set_split_join)
  also have "\<dots> = (\<Union>v\<in>set vs. insert [] (set (split_on comma (String_js v)))) \<union> {[]}"
    by auto
  also have "\<dots> = (\<Union>v\<in>set vs. insert [] (\<Union>x\<in>set (supplied v). set (split_on comma x))) \<union> {[]}"
    using QArr.IH by simp
  also have "\<dots> = insert [] (\<Union>x\<in>set (supplied (QArr vs)). set (split_on comma x))"
    by auto
  finally show ?case .
qed

lemma foldl_push_inner:
  "foldl (\<lambda>ts v. ts @ split_on comma (String_js v)) acc vs =
   acc @ concat (map (\<lambda>v. split_on comma (String_js v)) vs)"
  by (induction vs arbitrary: acc) simp_all

lemma set_push_item:
  "insert [] (set (push_item acc item)) =
   insert [] (set acc \<union> (\<Union>x\<in>set (supplied item). set (split_on comma x)))"
proof (cases item)
  case (QStr s)
  then show ?thesis by simp
next
  case (QArr vs)
  have "insert [] (set (push_item acc item)) =
        set acc \<union> ((\<Union>v\<in>set vs. insert [] (set (split_on comma (String_js v)))) \<union> {[]})"
    using QArr by (auto simp: foldl_push_inner)
  also have "\<dots> = set acc \<union> ((\<Union>v\<in>set vs. insert [] (\<Union>x\<in>set (supplied v). set (split_on comma x))) \<union> {[]})"
    by (simp add: set_split_String_js)
  also have "\<dots> = insert [] (set acc \<union> (\<Union>x\<in>set (supplied item). set (split_on comma x)))"
    using QArr by auto
  finally show ?thesis .
qed

lemma set_foldl_push_item:
  "insert [] (set (foldl push_item acc items)) =
   insert [] (set acc \<union> (\<Union>x\<in>set (concat (map supplied items)). set (split_on comma x)))"
proof (induction items arbitrary: acc)
  case Nil
  then show ?case by simp
next
  case (Cons item items)
  have "insert [] (set (foldl push_item acc (item # items))) =
        insert [] (set (push_item acc item) \<union> (\<Union>x\<in>set (concat (map supplied items)). set (split_on comma x)))"
    using Cons.IH [of "push_item acc item"] by simp
  also have "\<dots> = insert [] (set (push_item acc item)) \<union> (\<Union>x\<in>set (concat (map supplied items)). set (split_on comma x))"
    by simp
  also have "\<dots> = insert [] (set acc \<union> (\<Union>x\<in>set (supplied item). set (split_on comma x)))
                  \<union> (\<Union>x\<in>set (concat (map supplied items)). set (split_on comma x))"
    by (simp only: set_push_item)
  also have "\<dots> = insert [] (set acc \<union> (\<Union>x\<in>set (concat (map supplied (item # items))). set (split_on comma x)))"
    by auto
  finally show ?case .
qed

lemma supplied_concat_js:
  "concat (map supplied (concat_js a x)) =
   concat (map supplied a) @ (case x of None \<Rightarrow> [] | Some v \<Rightarrow> supplied v)"
  by (cases x) (auto simp: concat_js_def split: qval.split)

lemma supplied_raw_types: "concat (map supplied (raw_types q)) = supplied_values q"
  by (simp add: raw_types_def supplied_concat_js supplied_values_def)

lemma trim_Nil: "trim [] = []"
  by (simp add: trim_def)

lemma set_normalised:
  "set (map toLowerCase (filter (\<lambda>s. s \<noteq> []) (map trim xs))) =
   toLowerCase ` (trim ` insert [] (set xs) - {[]})"
  by (auto simp: trim_Nil)

lemma set_new_Set: "set (new_Set xs) = set xs"
  by (simp add: new_Set_def)

lemma distinct_new_Set: "distinct (new_Set xs)"
  by (simp add: new_Set_def)

lemma set_parse_types: "set (parse_types q) = spec_type_set q"
proof -
  have "insert [] (set (foldl push_item [] (raw_types q))) =
        insert [] (set (concat (map (split_on comma) (supplied_values q))))"
    using set_foldl_push_item [of "[]" "raw_types q"] by (simp add: supplied_raw_types)
  then show ?thesis
    by (simp only: parse_types_def Let_def spec_type_set_def set_new_Set set_normalised)
qed

subsection \<open>The statement built by the handler\<close>

lemma events_query_conds:
  "sel_conds (events_query q) =
     (if parse_types q \<noteq> [] then [TypeAny 1] else []) @
     (if truthy (q_date q)
      then [StartGE ((if parse_types q \<noteq> [] then 1 else 0) + 1),
            StartLE ((if parse_types q \<noteq> [] then 1 else 0) + 2)]
      else [StartGENow]) @
     (if truthy (q_lat q) \<and> truthy (q_lng q) \<and> truthy (q_radius q)
      then [LocNotNull,
            DWithin (length (sel_params (events_query q)) - 2) (length (sel_params (events_query q)) - 1)
              (length (sel_params (events_query q)))]
      else [])"
  by (simp add: events_query_def add_type_filter_def add_date_filter_def add_radius_filter_def
                truthy_def Let_def split: option.split prod.split)

lemma events_query_params:
  "sel_params (events_query q) =
     (if parse_types q \<noteq> [] then [PTextArr (parse_types q)] else []) @
     (case q_date q of
        Some d \<Rightarrow> if d \<noteq> [] then [PText (fst (boundsFor d (q_timeOfDay q))),
                                   PText (snd (boundsFor d (q_timeOfDay q)))] else []
      | None \<Rightarrow> []) @
     (case (q_lat q, q_lng q, q_radius q) of
        (Some la, Some lg, Some ra) \<Rightarrow>
          if la \<noteq> [] \<and> lg \<noteq> [] \<and> ra \<noteq> []
          then [PNum (parseFloat lg), PNum (parseFloat la), PNum (js_times (parseFloat ra) 1609.34)]
          else []
      | _ \<Rightarrow> [])"
  by (simp add: events_query_def add_type_filter_def add_date_filter_def add_radius_filter_def
                Let_def split: option.split prod.split)

lemma type_conds:
  "filter on_type (sel_conds (events_query q)) = (if parse_types q \<noteq> [] then [TypeAny 1] else [])"
  by (simp add: events_query_conds)

lemma start_time_conds:
  "filter on_start_time (sel_conds (events_query q)) =
     (if truthy (q_date q)
      then [StartGE ((if parse_types q \<noteq> [] then 1 else 0) + 1),
            StartLE ((if parse_types q \<noteq> [] then 1 else 0) + 2)]
      else [StartGENow])"
  by (simp add: events_query_conds)

lemma location_conds:
  "filter on_location (sel_conds (events_query q)) =
     (if truthy (q_lat q) \<and> truthy (q_lng q) \<and> truthy (q_radius q)
      then [LocNotNull,
            DWithin (length (sel_params (events_query q)) - 2) (length (sel_params (events_query q)) - 1)
              (length (sel_params (events_query q)))]
      else [])"
  by (simp add: events_query_conds)

lemma matches_restrict:
  "matches s (restrict P stmt) r = list_all (sat s (sel_params stmt) r) (filter P (sel_conds stmt))"
  by (simp add: matches_def restrict_def)

lemma matches_imp_restrict: "matches s stmt r \<Longrightarrow> matches s (restrict P stmt) r"
  by (auto simp: matches_def restrict_def list_all_iff)

text \<open>
  C3. The type list of the handler has no duplicates, and its elements are the set the
  specification describes. When it is not empty, a row satisfies the type condition of the statement exactly when its lower-cased
  type is in the set; when it is empty, the statement has no condition on the type.
\<close>

theorem type_filter_is_membership:
  "set (parse_types q) = spec_type_set q \<and>
   distinct (parse_types q) \<and>
   (spec_type_set q \<noteq> {} \<longrightarrow>
      matches s (restrict on_type (events_query q)) r =
        (\<exists>t. row_type r = Some t \<and> toLowerCase t \<in> spec_type_set q)) \<and>
   (spec_type_set q = {} \<longrightarrow> sel_conds (restrict on_type (events_query q)) = [])"
proof -
  have eq: "set (parse_types q) = spec_type_set q" by (rule set_parse_types)
  have empty: "sel_conds (restrict on_type (events_query q)) = []" if "spec_type_set q = {}"
  proof -
    have "parse_types q = []" using that eq by simp
    then show ?thesis by (simp add: restrict_def type_conds)
  qed
  have nonempty: "matches s (restrict on_type (events_query q)) r =
        (\<exists>t. row_type r = Some t \<and> toLowerCase t \<in> spec_type_set q)" if "spec_type_set q \<noteq> {}"
  proof -
    have ne: "parse_types q \<noteq> []" using that eq by auto
    have p: "param_at (sel_params (events_query q)) 1 = Some (PTextArr (parse_types q))"
      using ne by (simp add: events_query_params param_at_def)
    have "matches s (restrict on_type (events_query q)) r =
          sat s (sel_params (events_query q)) r (TypeAny 1)"
      using ne by (simp add: matches_restrict type_conds)
    also have "\<dots> = (\<exists>t. row_type r = Some t \<and> toLowerCase t \<in> set (parse_types q))"
      by (simp only: sat.simps p) (simp split: option.split)
    finally show ?thesis by (simp add: eq)
  qed
  have dist: "distinct (parse_types q)"
    by (simp add: parse_types_def Let_def distinct_new_Set)
  from eq dist empty nonempty show ?thesis by blast
qed

lemma boundsFor_cases:
  "boundsFor d tod =
     (let t = toLowerCase (case tod of None \<Rightarrow> [] | Some x \<Rightarrow> x) in
      if t = ''morning'' then (d @ '' 05:00:00'', d @ '' 11:59:59'')
      else if t = ''afternoon'' then (d @ '' 12:00:00'', d @ '' 16:59:59'')
      else if t = ''evening'' then (d @ '' 17:00:00'', d @ '' 23:59:59'')
      else (d @ '' 00:00:00'', d @ '' 23:59:59''))"
  by (simp add: boundsFor_def Let_def)

lemma toLowerCase_Nil: "toLowerCase [] = []"
  by (simp add: toLowerCase_def)

text \<open>
  C4. The window is 05:00:00 to 11:59:59 for morning, 12:00:00 to 16:59:59 for afternoon,
  17:00:00 to 23:59:59 for evening (the bucket is compared in lower case), and 00:00:00 to
  23:59:59 for any other value and for none. For a query with a (non-empty) date, a row
  satisfies the conditions on \<open>start_time\<close> exactly when its start lies between the two
  bounds, both included.
\<close>

theorem date_window_by_time_of_day:
  "(toLowerCase t = ''morning'' \<longrightarrow> boundsFor d (Some t) = (d @ '' 05:00:00'', d @ '' 11:59:59'')) \<and>
   (toLowerCase t = ''afternoon'' \<longrightarrow> boundsFor d (Some t) = (d @ '' 12:00:00'', d @ '' 16:59:59'')) \<and>
   (toLowerCase t = ''evening'' \<longrightarrow> boundsFor d (Some t) = (d @ '' 17:00:00'', d @ '' 23:59:59'')) \<and>
   (toLowerCase t \<noteq> ''morning'' \<and> toLowerCase t \<noteq> ''afternoon'' \<and> toLowerCase t \<noteq> ''evening'' \<longrightarrow>
      boundsFor d (Some t) = (d @ '' 00:00:00'', d @ '' 23:59:59'')) \<and>
   boundsFor d None = (d @ '' 00:00:00'', d @ '' 23:59:59'') \<and>
   (q_date q = Some d \<and> d \<noteq> [] \<longrightarrow>
      matches s (restrict on_start_time (events_query q)) r =
        (\<exists>st. row_start_time r = Some st \<and>
              st_read_ts s (fst (boundsFor d (q_timeOfDay q))) \<le> st \<and>
              st \<le> st_read_ts s (snd (boundsFor d (q_timeOfDay q)))))"
proof -
  have b: "(toLowerCase t = ''morning'' \<longrightarrow> boundsFor d (Some t) = (d @ '' 05:00:00'', d @ '' 11:59:59'')) \<and>
   (toLowerCase t = ''afternoon'' \<longrightarrow> boundsFor d (Some t) = (d @ '' 12:00:00'', d @ '' 16:59:59'')) \<and>
   (toLowerCase t = ''evening'' \<longrightarrow> boundsFor d (Some t) = (d @ '' 17:00:00'', d @ '' 23:59:59'')) \<and>
   (toLowerCase t \<noteq> ''morning'' \<and> toLowerCase t \<noteq> ''afternoon'' \<and> toLowerCase t \<noteq> ''evening'' \<longrightarrow>
      boundsFor d (Some t) = (d @ '' 00:00:00'', d @ '' 23:59:59''))"
    by (simp add: boundsFor_cases Let_def)
  have n: "boundsFor d None = (d @ '' 00:00:00'', d @ '' 23:59:59'')"
    by (simp add: boundsFor_cases Let_def toLowerCase_Nil)
  have m: "matches s (restrict on_start_time (events_query q)) r =
        (\<exists>st. row_start_time r = Some st \<and>
              st_read_ts s (fst (boundsFor d (q_timeOfDay q))) \<le> st \<and>
              st \<le> st_read_ts s (snd (boundsFor d (q_timeOfDay q))))"
    if "q_date q = Some d \<and> d \<noteq> []"
  proof -
    let ?k = "if parse_types q \<noteq> [] then 1 else (0::nat)"
    have tr: "truthy (q_date q)" using that by (simp add: truthy_def)
    have p1: "param_at (sel_params (events_query q)) (?k + 1) = Some (PText (fst (boundsFor d (q_timeOfDay q))))"
      using that by (simp add: events_query_params param_at_def)
    have p2: "param_at (sel_params (events_query q)) (?k + 2) = Some (PText (snd (boundsFor d (q_timeOfDay q))))"
      using that by (simp add: events_query_params param_at_def)
    have "matches s (restrict on_start_time (events_query q)) r =
          (sat s (sel_params (events_query q)) r (StartGE (?k + 1)) \<and>
           sat s (sel_params (events_query q)) r (StartLE (?k + 2)))"
      using tr by (simp add: matches_restrict start_time_conds)
    also have "\<dots> = (\<exists>st. row_start_time r = Some st \<and>
              st_read_ts s (fst (boundsFor d (q_timeOfDay q))) \<le> st \<and>
              st \<le> st_read_ts s (snd (boundsFor d (q_timeOfDay q))))"
      by (simp only: sat.simps p1 p2) (auto split: option.split)
    finally show ?thesis .
  qed
  from b n m show ?thesis by blast
qed

text \<open>
  C5, as amended. For a query whose date is absent or empty, the only condition on
  \<open>start_time\<close> is \<open>start_time >= NOW()\<close>; for a query with a non-empty date that condition
  is not in the statement; and it never stands together with the bounds of a date window.
\<close>

theorem future_only_exactly_without_date:
  "(q_date q = None \<or> q_date q = Some [] \<longrightarrow>
      sel_conds (restrict on_start_time (events_query q)) = [StartGENow] \<and>
      matches s (restrict on_start_time (events_query q)) r =
        (\<exists>st. row_start_time r = Some st \<and> st_now s \<le> st)) \<and>
   (q_date q = Some d \<and> d \<noteq> [] \<longrightarrow> StartGENow \<notin> set (sel_conds (events_query q))) \<and>
   (StartGENow \<in> set (sel_conds (events_query q)) \<longrightarrow>
      (\<forall>n. StartGE n \<notin> set (sel_conds (events_query q)) \<and>
           StartLE n \<notin> set (sel_conds (events_query q))))"
proof -
  have a: "sel_conds (restrict on_start_time (events_query q)) = [StartGENow] \<and>
      matches s (restrict on_start_time (events_query q)) r =
        (\<exists>st. row_start_time r = Some st \<and> st_now s \<le> st)"
    if "q_date q = None \<or> q_date q = Some []"
  proof -
    have "\<not> truthy (q_date q)" using that by (auto simp: truthy_def)
    then have c: "filter on_start_time (sel_conds (events_query q)) = [StartGENow]"
      by (simp add: start_time_conds)
    have "matches s (restrict on_start_time (events_query q)) r =
          sat s (sel_params (events_query q)) r StartGENow"
      by (simp add: matches_restrict c)
    then show ?thesis
      using c by (auto simp: restrict_def split: option.split)
  qed
  have b: "StartGENow \<notin> set (sel_conds (events_query q))" if "q_date q = Some d \<and> d \<noteq> []"
  proof -
    have "truthy (q_date q)" using that by (simp add: truthy_def)
    then show ?thesis by (simp add: events_query_conds)
  qed
  have c: "\<forall>n. StartGE n \<notin> set (sel_conds (events_query q)) \<and>
           StartLE n \<notin> set (sel_conds (events_query q))"
    if "StartGENow \<in> set (sel_conds (events_query q))"
  proof -
    have "\<not> truthy (q_date q)"
      using that by (auto simp: events_query_conds split: if_splits)
    then show ?thesis by (simp add: events_query_conds)
  qed
  from a b c show ?thesis by blast
qed

text \<open>
  C5 as stated fails: the query \<open>?date=\<close> has a date parameter, and the statement still
  holds \<open>start_time >= NOW()\<close>.
\<close>

theorem empty_date_gets_future_filter:
  "q_date (example_query\<lparr>q_date := Some ''''\<rparr>) = Some '''' \<and>
   StartGENow \<in> set (sel_conds (events_query (example_query\<lparr>q_date := Some ''''\<rparr>)))"
  by (simp add: example_query_def events_query_conds truthy_def)

text \<open>
  C6, as amended. The statement has the radius conditions exactly when \<open>lat\<close>, \<open>lng\<close> and
  \<open>radius\<close> are all supplied and non-empty. Then a row satisfies them exactly when its
  location is not null and within \<open>parseFloat(radius) * 1609.34\<close> of the point
  \<open>(parseFloat(lng), parseFloat(lat))\<close>; a row with no location does not match the query.
\<close>

theorem radius_filter_iff_all_nonempty:
  "((sel_conds (restrict on_location (events_query q)) \<noteq> []) =
      (truthy (q_lat q) \<and> truthy (q_lng q) \<and> truthy (q_radius q))) \<and>
   (q_lat q = Some la \<and> q_lng q = Some lg \<and> q_radius q = Some ra \<and>
    la \<noteq> [] \<and> lg \<noteq> [] \<and> ra \<noteq> [] \<longrightarrow>
      matches s (restrict on_location (events_query q)) r =
        (\<exists>loc. row_location r = Some loc \<and>
               st_dwithin s loc (parseFloat lg, parseFloat la) (js_times (parseFloat ra) 1609.34)) \<and>
      (row_location r = None \<longrightarrow> \<not> matches s (events_query q) r))"
proof -
  have a: "(sel_conds (restrict on_location (events_query q)) \<noteq> []) =
      (truthy (q_lat q) \<and> truthy (q_lng q) \<and> truthy (q_radius q))"
    by (simp add: restrict_def location_conds)
  have b: "matches s (restrict on_location (events_query q)) r =
        (\<exists>loc. row_location r = Some loc \<and>
               st_dwithin s loc (parseFloat lg, parseFloat la) (js_times (parseFloat ra) 1609.34)) \<and>
      (row_location r = None \<longrightarrow> \<not> matches s (events_query q) r)"
    if h: "q_lat q = Some la \<and> q_lng q = Some lg \<and> q_radius q = Some ra \<and>
           la \<noteq> [] \<and> lg \<noteq> [] \<and> ra \<noteq> []"
  proof -
    let ?ps = "sel_params (events_query q)"
    let ?n = "length ?ps"
    have tr: "truthy (q_lat q) \<and> truthy (q_lng q) \<and> truthy (q_radius q)"
      using h by (simp add: truthy_def)
    obtain pre where pre: "?ps = pre @ [PNum (parseFloat lg), PNum (parseFloat la),
                                        PNum (js_times (parseFloat ra) 1609.34)]"
      using h by (simp add: events_query_params)
    have p1: "param_at ?ps (?n - 2) = Some (PNum (parseFloat lg))"
      and p2: "param_at ?ps (?n - 1) = Some (PNum (parseFloat la))"
      and p3: "param_at ?ps ?n = Some (PNum (js_times (parseFloat ra) 1609.34))"
      by (simp_all add: pre param_at_def nth_append)
    have "matches s (restrict on_location (events_query q)) r =
          (sat s ?ps r LocNotNull \<and> sat s ?ps r (DWithin (?n - 2) (?n - 1) ?n))"
      using tr by (simp add: matches_restrict location_conds)
    also have "\<dots> = (\<exists>loc. row_location r = Some loc \<and>
               st_dwithin s loc (parseFloat lg, parseFloat la) (js_times (parseFloat ra) 1609.34))"
      by (simp only: sat.simps p1 p2 p3) (auto split: option.split)
    finally have m: "matches s (restrict on_location (events_query q)) r =
        (\<exists>loc. row_location r = Some loc \<and>
               st_dwithin s loc (parseFloat lg, parseFloat la) (js_times (parseFloat ra) 1609.34))" .
    have "\<not> matches s (events_query q) r" if "row_location r = None"
      using that m matches_imp_restrict [of s "events_query q" r on_location] by auto
    then show ?thesis using m by blast
  qed
  from a b show ?thesis by blast
qed

lemma parseFloat_abc: "parseFloat ''abc'' = NaN"
  by (simp add: parseFloat_def is_space_def is_digit_def Let_def)

lemma parseFloat_ex1: "parseFloat ''-80.8431'' = Num (- 80.8431)"
  by (simp add: parseFloat_def is_space_def is_digit_def Let_def digits_val_def digit_val_def
                parse_exponent_def pow10_def)

lemma parseFloat_ex2: "parseFloat ''5'' = Num 5"
  by (simp add: parseFloat_def is_space_def is_digit_def Let_def digits_val_def digit_val_def
                parse_exponent_def pow10_def)

lemma parseFloat_ex3: "parseFloat '' 1.5e3x'' = Num 1500"
  by (simp add: parseFloat_def is_space_def is_digit_def Let_def digits_val_def digit_val_def
                parse_exponent_def pow10_def)

text \<open>
  C6 as stated fails: a latitude that is not a number still gets the radius filter, with
  NaN as its parameter.
\<close>

theorem radius_filter_without_numeric_check:
  "parseFloat ''abc'' = NaN \<and>
   events_query (example_query\<lparr>q_lat := Some ''abc'', q_lng := Some ''-80.8431'', q_radius := Some ''5''\<rparr>) =
     \<lparr>sel_params = [PNum (Num (- 80.8431)), PNum NaN, PNum (Num 8046.7)],
      sel_conds = [StartGENow, LocNotNull, DWithin 1 2 3]\<rparr>"
proof -
  have "parse_types (example_query\<lparr>q_lat := Some ''abc'', q_lng := Some ''-80.8431'', q_radius := Some ''5''\<rparr>) = []"
    by (simp add: parse_types_def raw_types_def concat_js_def example_query_def new_Set_def)
  then show ?thesis
    by (simp add: events_query_def add_type_filter_def add_date_filter_def add_radius_filter_def
                  example_query_def parseFloat_abc parseFloat_ex1 parseFloat_ex2)
qed

section \<open>Properties of the CSV import\<close>

lemma split_lines_not_Nil: "split_lines s \<noteq> []"
  by (induction s rule: split_lines.induct) (auto split: list.split)

lemma split_lines_before_LF:
  "\<exists>p ps. \<forall>r. split_lines (a @ LF # r) = (p # ps) @ split_lines r"
proof (induction a rule: split_lines.induct)
  case 1
  have "\<forall>r. split_lines ([] @ LF # r) = ([] # []) @ split_lines r" by simp
  then show ?case by blast
next
  case (2 c cs)
  show ?case
  proof (cases "c = LF")
    case True
    then obtain p ps where "\<forall>r. split_lines (cs @ LF # r) = (p # ps) @ split_lines r"
      using "2.IH"(1) by blast
    then have "\<forall>r. split_lines ((c # cs) @ LF # r) = ([] # p # ps) @ split_lines r"
      using True by simp
    then show ?thesis by blast
  next
    case notLF: False
    show ?thesis
    proof (cases "c = CR \<and> cs \<noteq> [] \<and> hd cs = LF")
      case True
      then obtain p ps where "\<forall>r. split_lines (tl cs @ LF # r) = (p # ps) @ split_lines r"
        using "2.IH"(2) notLF by blast
      moreover have "split_lines ((c # cs) @ LF # r) = [] # split_lines (tl cs @ LF # r)" for r
        using True notLF by (cases cs) simp_all
      ultimately have "\<forall>r. split_lines ((c # cs) @ LF # r) = ([] # p # ps) @ split_lines r"
        by simp
      then show ?thesis by blast
    next
      case False
      show ?thesis
      proof (cases "c = CR \<and> cs = []")
        case True
        then have "\<forall>r. split_lines ((c # cs) @ LF # r) = ([] # []) @ split_lines r"
          using notLF by simp
        then show ?thesis by blast
      next
        case plain: False
        obtain p ps where ih: "\<forall>r. split_lines (cs @ LF # r) = (p # ps) @ split_lines r"
          using "2.IH"(3) notLF False by blast
        have "\<not> (c = CR \<and> cs @ LF # r \<noteq> [] \<and> hd (cs @ LF # r) = LF)" for r
          using False plain by (cases cs) auto
        then have "split_lines ((c # cs) @ LF # r) = ((c # p) # ps) @ split_lines r" for r
          using notLF ih by simp
        then show ?thesis by blast
      qed
    qed
  qed
qed

lemma csv_lines_extra_LF: "csv_lines (Some (a @ LF # LF # b)) = csv_lines (Some (a @ LF # b))"
proof -
  obtain p ps where "\<forall>r. split_lines (a @ LF # r) = (p # ps) @ split_lines r"
    using split_lines_before_LF by blast
  then have "split_lines (a @ LF # LF # b) = (p # ps) @ [] # split_lines b"
    and "split_lines (a @ LF # b) = (p # ps) @ split_lines b"
    by simp_all
  then show ?thesis by (simp add: csv_lines_def)
qed

lemma csv_lines_extra_CRLF: "csv_lines (Some (a @ LF # CR # LF # b)) = csv_lines (Some (a @ LF # b))"
proof -
  obtain p ps where "\<forall>r. split_lines (a @ LF # r) = (p # ps) @ split_lines r"
    using split_lines_before_LF by blast
  then have "split_lines (a @ LF # CR # LF # b) = (p # ps) @ [] # split_lines b"
    and "split_lines (a @ LF # b) = (p # ps) @ split_lines b"
    by (simp_all add: CR_def LF_def)
  then show ?thesis by (simp add: csv_lines_def)
qed

lemma csv_lines_leading_LF: "csv_lines (Some (LF # b)) = csv_lines (Some b)"
  by (simp add: csv_lines_def)

lemma post_admin_import_csv_lines:
  "csv_lines body = csv_lines body' \<Longrightarrow> post_admin_import e body = post_admin_import e body'"
  by (simp add: post_admin_import_def)

lemma empty_csv_iff:
  "(fst (post_admin_import e body) = Status400 ''Empty CSV'') = (csv_lines body = [])"
proof (cases "csv_lines body")
  case Nil
  then show ?thesis by (simp add: post_admin_import_def)
next
  case (Cons first lines)
  let ?header = "map (\<lambda>h. toLowerCase (trim h)) (split_on comma first)"
  show ?thesis
  proof (cases "filter (\<lambda>r. r \<notin> set ?header) [''name'', ''type'', ''start_time'']")
    case Nil
    have "fst (import_lines e h ls n ex) \<noteq> Status400 m" for h ls n ex m
      by (induction ls arbitrary: n ex) (auto split: sum.split)
    then show ?thesis using Cons Nil by (simp add: post_admin_import_def Let_def del: filter.simps)
  next
    case (Cons r rs)
    then show ?thesis using \<open>csv_lines body = first # lines\<close>
      by (simp add: post_admin_import_def Let_def del: filter.simps)
  qed
qed

text \<open>
  C10, as amended. The import answers 400 \<open>Empty CSV\<close> exactly when every line of the
  body is empty (of length zero). An empty line after a line end, be it ended by a line feed or by a carriage return and a
  line feed, and a line feed at the start of the body, change neither the answer nor the
  statements executed. A body whose only non-empty line is a header with the columns
  \<open>name\<close>, \<open>type\<close> and \<open>start_time\<close> is answered with success, 0 inserted, and executes
  no statement.
\<close>

theorem import_skips_empty_lines:
  "((fst (post_admin_import e body) = Status400 ''Empty CSV'') =
      (\<forall>l\<in>set (split_lines (case body of None \<Rightarrow> [] | Some s \<Rightarrow> s)). l = [])) \<and>
   post_admin_import e (Some (a @ LF # LF # b)) = post_admin_import e (Some (a @ LF # b)) \<and>
   post_admin_import e (Some (a @ LF # CR # LF # b)) = post_admin_import e (Some (a @ LF # b)) \<and>
   post_admin_import e (Some (LF # b)) = post_admin_import e (Some b) \<and>
   (csv_lines body = [h] \<and>
    ''name'' \<in> set (map (\<lambda>x. toLowerCase (trim x)) (split_on comma h)) \<and>
    ''type'' \<in> set (map (\<lambda>x. toLowerCase (trim x)) (split_on comma h)) \<and>
    ''start_time'' \<in> set (map (\<lambda>x. toLowerCase (trim x)) (split_on comma h)) \<longrightarrow>
      post_admin_import e body = (Ok_inserted 0, []))"
proof -
  have "(csv_lines body = []) =
        (\<forall>l\<in>set (split_lines (case body of None \<Rightarrow> [] | Some s \<Rightarrow> s)). l = [])"
    by (auto simp: csv_lines_def filter_empty_conv)
  then have a: "(fst (post_admin_import e body) = Status400 ''Empty CSV'') =
      (\<forall>l\<in>set (split_lines (case body of None \<Rightarrow> [] | Some s \<Rightarrow> s)). l = [])"
    by (simp only: empty_csv_iff)
  have b: "post_admin_import e (Some (a @ LF # LF # b)) = post_admin_import e (Some (a @ LF # b))"
    by (rule post_admin_import_csv_lines) (rule csv_lines_extra_LF)
  have c: "post_admin_import e (Some (a @ LF # CR # LF # b)) = post_admin_import e (Some (a @ LF # b))"
    by (rule post_admin_import_csv_lines) (rule csv_lines_extra_CRLF)
  have d: "post_admin_import e (Some (LF # b)) = post_admin_import e (Some b)"
    by (rule post_admin_import_csv_lines) (rule csv_lines_leading_LF)
  have f: "post_admin_import e body = (Ok_inserted 0, [])"
    if "csv_lines body = [h] \<and>
        ''name'' \<in> set (map (\<lambda>x. toLowerCase (trim x)) (split_on comma h)) \<and>
        ''type'' \<in> set (map (\<lambda>x. toLowerCase (trim x)) (split_on comma h)) \<and>
        ''start_time'' \<in> set (map (\<lambda>x. toLowerCase (trim x)) (split_on comma h))"
    using that by (simp add: post_admin_import_def Let_def)
  from a b c d f show ?thesis by blast
qed

section \<open>Checks on the example inputs\<close>

text \<open>
  Where the offset of the time zone changes, stepping by calendar days is not exact: from
  02:30 local time on 2024-02-04, the step onto 2024-03-10 lands in the hour that does not
  exist and moves to 03:30, and the weekly expansion with the default until has 8 instances.
\<close>

lemma expand_weekly_across_dst_gap:
  "map fst (expand example_dst_zone (Some (Date 1707031800000)) None ''weekly'' None) =
     [Date 1707031800000, Date 1707636600000, Date 1708241400000, Date 1708846200000,
      Date 1709451000000, Date 1710055800000, Date 1710660600000, Date 1711265400000]"
  by (simp add: expand_def until_of_def step_of_def new_Date_def addWeeks_def addDays_def
                setDate_plus_def TimeClip_def example_dst_zone_def msPerDay_def maxTime_def
                js_le_def expand_loop.simps)

lemma parse_types_example:
  "parse_types (example_query\<lparr>q_types := Some (QStr '' Trivia ,drink deals,''),
                              q_type := Some (QArr [QStr ''TRIVIA'', QStr ''Live Music,trivia'']),
                              q_types_brackets := Some (QArr [QArr [QStr ''a'', QStr ''B'']])\<rparr>) =
     [''trivia'', ''drink deals'', ''live music'', ''a'', ''b'']"
  by (simp add: parse_types_def raw_types_def concat_js_def example_query_def new_Set_def comma_def
                trim_def is_space_def toLowerCase_def toLowerCase_char_def)

text \<open>
  The request \<open>types=Trivia,drink deals\<close>: a row of type \<open>DRINK DEALS\<close> matches, a row of
  type \<open>karaoke\<close> does not. And a request with white space, an empty piece and the same
  type three times, in \<open>types\<close> and in a repeated \<open>type\<close>: each type is in the list once.
\<close>

theorem type_filter_is_membership_witness:
  "spec_type_set (example_query\<lparr>q_types := Some (QStr ''Trivia,drink deals'')\<rparr>) =
     {''trivia'', ''drink deals''} \<and>
   matches example_store
     (restrict on_type (events_query (example_query\<lparr>q_types := Some (QStr ''Trivia,drink deals'')\<rparr>)))
     (example_row ''DRINK DEALS'' 1717264800000 None) \<and>
   \<not> matches example_store
     (restrict on_type (events_query (example_query\<lparr>q_types := Some (QStr ''Trivia,drink deals'')\<rparr>)))
     (example_row ''karaoke'' 1717264800000 None) \<and>
   parse_types (example_query\<lparr>q_types := Some (QStr '' Trivia ,drink deals,,TRIVIA''),
                              q_type := Some (QArr [QStr ''Drink Deals'', QStr ''trivia''])\<rparr>) =
     [''trivia'', ''drink deals''] \<and>
   distinct (parse_types (example_query\<lparr>q_types := Some (QStr '' Trivia ,drink deals,,TRIVIA''),
                              q_type := Some (QArr [QStr ''Drink Deals'', QStr ''trivia''])\<rparr>)) \<and>
   spec_type_set (example_query\<lparr>q_types := Some (QStr '' Trivia ,drink deals,,TRIVIA''),
                              q_type := Some (QArr [QStr ''Drink Deals'', QStr ''trivia''])\<rparr>) =
     {''trivia'', ''drink deals''}"
proof -
  let ?q = "example_query\<lparr>q_types := Some (QStr ''Trivia,drink deals'')\<rparr>"
  let ?q2 = "example_query\<lparr>q_types := Some (QStr '' Trivia ,drink deals,,TRIVIA''),
                              q_type := Some (QArr [QStr ''Drink Deals'', QStr ''trivia''])\<rparr>"
  have s: "spec_type_set ?q = {''trivia'', ''drink deals''}"
    by (simp add: spec_type_set_def supplied_values_def example_query_def comma_def
                  trim_def is_space_def toLowerCase_def toLowerCase_char_def insert_commute)
  have l1: "toLowerCase ''DRINK DEALS'' = ''drink deals''"
    and l2: "toLowerCase ''karaoke'' = ''karaoke''"
    by (simp_all add: toLowerCase_def toLowerCase_char_def)
  have p2: "parse_types ?q2 = [''trivia'', ''drink deals'']"
    by (simp add: parse_types_def raw_types_def concat_js_def example_query_def new_Set_def comma_def
                  trim_def is_space_def toLowerCase_def toLowerCase_char_def)
  have m: "matches example_store (restrict on_type (events_query ?q))
             (example_row ''DRINK DEALS'' 1717264800000 None) \<and>
           \<not> matches example_store (restrict on_type (events_query ?q))
             (example_row ''karaoke'' 1717264800000 None)"
    using type_filter_is_membership [of ?q example_store "example_row ''DRINK DEALS'' 1717264800000 None"]
          type_filter_is_membership [of ?q example_store "example_row ''karaoke'' 1717264800000 None"]
    by (simp add: s l1 l2 example_row_def)
  have d: "distinct (parse_types ?q2) \<and> spec_type_set ?q2 = {''trivia'', ''drink deals''}"
    using type_filter_is_membership [of ?q2 example_store "example_row ''karaoke'' 1717264800000 None"]
    by (simp add: p2 insert_commute)
  from s m p2 d show ?thesis by blast
qed

lemma parse_types_none:
  "q_types q = None \<Longrightarrow> q_type q = None \<Longrightarrow> q_types_brackets q = None \<Longrightarrow> parse_types q = []"
  by (simp add: parse_types_def raw_types_def concat_js_def new_Set_def)

text \<open>
  The request \<open>date=2024-06-01&timeOfDay=evening\<close>: a row at 18:00:00 matches, a row at
  10:00:00 does not.
\<close>

theorem date_window_by_time_of_day_witness:
  "boundsFor ''2024-06-01'' (Some ''Morning'') = (''2024-06-01 05:00:00'', ''2024-06-01 11:59:59'') \<and>
   boundsFor ''2024-06-01'' (Some ''afternoon'') = (''2024-06-01 12:00:00'', ''2024-06-01 16:59:59'') \<and>
   boundsFor ''2024-06-01'' (Some ''evening'') = (''2024-06-01 17:00:00'', ''2024-06-01 23:59:59'') \<and>
   boundsFor ''2024-06-01'' (Some ''anytime'') = (''2024-06-01 00:00:00'', ''2024-06-01 23:59:59'') \<and>
   matches example_store
     (restrict on_start_time
        (events_query (example_query\<lparr>q_date := Some ''2024-06-01'', q_timeOfDay := Some ''evening''\<rparr>)))
     (example_row ''Trivia'' 1717264800000 None) \<and>
   \<not> matches example_store
     (restrict on_start_time
        (events_query (example_query\<lparr>q_date := Some ''2024-06-01'', q_timeOfDay := Some ''evening''\<rparr>)))
     (example_row ''Trivia'' 1717236000000 None)"
proof -
  let ?q = "example_query\<lparr>q_date := Some ''2024-06-01'', q_timeOfDay := Some ''evening''\<rparr>"
  have l: "toLowerCase ''Morning'' = ''morning''" "toLowerCase ''afternoon'' = ''afternoon''"
    "toLowerCase ''evening'' = ''evening''" "toLowerCase ''anytime'' = ''anytime''"
    by (simp_all add: toLowerCase_def toLowerCase_char_def)
  have q: "q_date ?q = Some ''2024-06-01''" "q_timeOfDay ?q = Some ''evening''"
    by (simp_all add: example_query_def)
  show ?thesis
    using date_window_by_time_of_day [of "''Morning''" "''2024-06-01''" ?q example_store
            "example_row ''Trivia'' 1717264800000 None"]
          date_window_by_time_of_day [of "''afternoon''" "''2024-06-01''" ?q example_store
            "example_row ''Trivia'' 1717236000000 None"]
          date_window_by_time_of_day [of "''evening''" "''2024-06-01''" ?q example_store
            "example_row ''Trivia'' 1717264800000 None"]
          date_window_by_time_of_day [of "''anytime''" "''2024-06-01''" ?q example_store
            "example_row ''Trivia'' 1717264800000 None"]
    by (simp add: l q example_row_def example_store_def)
qed

text \<open>
  With no date, at 2024-06-01T00:00:00Z: a row of that evening matches, a row of
  2024-01-01 does not.
\<close>

theorem future_only_exactly_without_date_witness:
  "q_date example_query = None \<and>
   sel_conds (restrict on_start_time (events_query example_query)) = [StartGENow] \<and>
   matches example_store (restrict on_start_time (events_query example_query))
     (example_row ''Trivia'' 1717264800000 None) \<and>
   \<not> matches example_store (restrict on_start_time (events_query example_query))
     (example_row ''Trivia'' 1704067200000 None) \<and>
   StartGENow \<notin> set (sel_conds (events_query (example_query\<lparr>q_date := Some ''2024-06-01''\<rparr>)))"
  using future_only_exactly_without_date [where q = example_query and s = example_store
          and r = "example_row ''Trivia'' 1717264800000 None"]
        future_only_exactly_without_date [where q = example_query and s = example_store
          and r = "example_row ''Trivia'' 1704067200000 None"]
        future_only_exactly_without_date [where q = "example_query\<lparr>q_date := Some ''2024-06-01''\<rparr>"
          and d = "''2024-06-01''"]
  by (simp add: example_query_def example_row_def example_store_def)

lemma parseFloat_ex4: "parseFloat ''35.2271'' = Num 35.2271"
  by (simp add: parseFloat_def is_space_def is_digit_def Let_def digits_val_def digit_val_def
                parse_exponent_def pow10_def)

text \<open>
  The request \<open>lat=35.2271&lng=-80.8431&radius=5\<close>: the radius is 8046.7 meters.
\<close>

theorem radius_filter_iff_all_nonempty_witness:
  "truthy (Some ''35.2271'') \<and> truthy (Some ''-80.8431'') \<and> truthy (Some ''5'') \<and>
   sel_params (events_query (example_query\<lparr>q_lat := Some ''35.2271'', q_lng := Some ''-80.8431'',
                                            q_radius := Some ''5''\<rparr>)) =
     [PNum (Num (- 80.8431)), PNum (Num 35.2271), PNum (Num 8046.7)] \<and>
   matches example_store
     (restrict on_location
        (events_query (example_query\<lparr>q_lat := Some ''35.2271'', q_lng := Some ''-80.8431'',
                                      q_radius := Some ''5''\<rparr>)))
     (example_row ''Trivia'' 1717264800000 (Some (Num (- 80.8431), Num 35.2271))) \<and>
   \<not> matches example_store
     (events_query (example_query\<lparr>q_lat := Some ''35.2271'', q_lng := Some ''-80.8431'',
                                   q_radius := Some ''5''\<rparr>))
     (example_row ''Trivia'' 1717264800000 None)"
proof -
  let ?q = "example_query\<lparr>q_lat := Some ''35.2271'', q_lng := Some ''-80.8431'', q_radius := Some ''5''\<rparr>"
  have q: "q_lat ?q = Some ''35.2271''" "q_lng ?q = Some ''-80.8431''" "q_radius ?q = Some ''5''"
    by (simp_all add: example_query_def)
  have p: "sel_params (events_query ?q) = [PNum (Num (- 80.8431)), PNum (Num 35.2271), PNum (Num 8046.7)]"
    by (simp add: events_query_params parse_types_none example_query_def
                  parseFloat_ex1 parseFloat_ex2 parseFloat_ex4)
  show ?thesis
    using radius_filter_iff_all_nonempty [of ?q "''35.2271''" "''-80.8431''" "''5''" example_store
            "example_row ''Trivia'' 1717264800000 (Some (Num (- 80.8431), Num 35.2271))"]
          radius_filter_iff_all_nonempty [of ?q "''35.2271''" "''-80.8431''" "''5''" example_store
            "example_row ''Trivia'' 1717264800000 None"]
    by (simp add: q p truthy_def example_row_def example_store_def
                  parseFloat_ex1 parseFloat_ex2 parseFloat_ex4)
qed

text \<open>
  An update whose address the lookup service does not know: the row keeps its location.
\<close>

theorem update_rewrites_location_only_with_coordinates_witness:
  "put_admin_event (\<lambda>a. Some []) (\<lambda>q. True) ''7'' example_body =
     (Ok_success, Some (update_statement ''7'' example_body (None, None))) \<and>
   geocodeIfNeeded (\<lambda>a. Some []) (b_address example_body) (b_lat example_body) (b_lon example_body) =
     Inr (None, None) \<and>
   row_id (example_row ''Karaoke'' 1717264800000 (Some (Num (- 80.8431), Num 35.2271))) = ''7'' \<and>
   upd_setLoc (update_statement ''7'' example_body (None, None)) = None \<and>
   row_location (exec_update example_store (update_statement ''7'' example_body (None, None))
     (example_row ''Karaoke'' 1717264800000 (Some (Num (- 80.8431), Num 35.2271)))) =
     Some (Num (- 80.8431), Num 35.2271) \<and>
   row_type (exec_update example_store (update_statement ''7'' example_body (None, None))
     (example_row ''Karaoke'' 1717264800000 (Some (Num (- 80.8431), Num 35.2271)))) = Some ''Trivia'' \<and>
   row_start_time (exec_update example_store (update_statement ''7'' example_body (None, None))
     (example_row ''Karaoke'' 1717264800000 (Some (Num (- 80.8431), Num 35.2271)))) = Some 1717261200000"
proof -
  have g: "geocodeIfNeeded (\<lambda>a. Some []) (b_address example_body) (b_lat example_body) (b_lon example_body) =
     Inr (None, None)"
    by (simp add: geocodeIfNeeded_def example_body_def)
  have p: "put_admin_event (\<lambda>a. Some []) (\<lambda>q. True) ''7'' example_body =
     (Ok_success, Some (update_statement ''7'' example_body (None, None)))"
    by (simp add: put_admin_event_def g Let_def) (simp add: example_body_def truthy_def)
  have i: "row_id (example_row ''Karaoke'' 1717264800000 (Some (Num (- 80.8431), Num 35.2271))) = ''7''"
    by (simp add: example_row_def)
  show ?thesis
    using update_rewrites_location_only_with_coordinates [OF p g i, of example_store]
    by (simp add: p g) (simp add: example_row_def example_body_def example_store_def)
qed

text \<open>The header of the examples, and the reading of a line that holds only a space.\<close>

lemma example_header:
  "map (\<lambda>h. toLowerCase (trim h)) (split_on comma ''name,type,start_time'') =
     [''name'', ''type'', ''start_time'']"
  by (simp add: comma_def trim_def is_space_def toLowerCase_def toLowerCase_char_def)

lemma example_space_record:
  "record_of [''name'', ''type'', ''start_time''] (split_on comma '' '') =
     [(''name'', ''''), (''type'', ''''), (''start_time'', '''')]"
  by (simp add: record_of_def comma_def enumerate_eq_zip upt_rec trim_def is_space_def)

lemma example_space_fields:
  "rec_get [(''name'', ''''), (''type'', ''''), (''start_time'', '''')] ''name'' = Some ''''"
  "rec_get [(''name'', ''''), (''type'', ''''), (''start_time'', '''')] ''type'' = Some ''''"
  "rec_get [(''name'', ''''), (''type'', ''''), (''start_time'', '''')] ''start_time'' = Some ''''"
  "rec_get [(''name'', ''''), (''type'', ''''), (''start_time'', '''')] ''end_time'' = None"
  "rec_get [(''name'', ''''), (''type'', ''''), (''start_time'', '''')] ''address'' = None"
  "rec_get [(''name'', ''''), (''type'', ''''), (''start_time'', '''')] ''address_name'' = None"
  "rec_get [(''name'', ''''), (''type'', ''''), (''start_time'', '''')] ''description'' = None"
  "rec_get [(''name'', ''''), (''type'', ''''), (''start_time'', '''')] ''lat'' = None"
  "rec_get [(''name'', ''''), (''type'', ''''), (''start_time'', '''')] ''lon'' = None"
  "rec_get [(''name'', ''''), (''type'', ''''), (''start_time'', '''')] ''recurrence'' = None"
  "rec_get [(''name'', ''''), (''type'', ''''), (''start_time'', '''')] ''recurrence_until'' = None"
  by (simp_all add: rec_get_def)

lemma example_space_line:
  "import_line example_env [''name'', ''type'', ''start_time''] '' '' [] =
     Inr [\<lparr>ins_params = [PText '''', PText '''', PNull, PNull, PNull, PDate (Date 0), PNull],
           ins_locSql = LocNULL\<rparr>]"
  unfolding import_line_def example_space_record Let_def example_space_fields
  by (simp add: example_env_def nonempty_def geocodeIfNeeded_def
                toLowerCase_def toLowerCase_char_def toTimestamp_def recurrence_until_date_def
                expand_def step_of_def new_Date_def insertEvent_def to_param_def or_null_def
                date_param_def)

lemma example_space_body:
  "csv_lines (Some (''name,type,start_time'' @ [LF] @ '' '')) = [''name,type,start_time'', '' '']"
  by (simp add: csv_lines_def LF_def CR_def)

text \<open>
  C10 as stated fails: a line that holds only a space is a blank line, and the import does
  not skip it. After a header alone nothing is inserted; after the same header and such a
  line the import inserts a row with empty name and type and the epoch as its start, and
  answers 1 inserted.
\<close>

theorem import_space_line_is_a_record:
  "post_admin_import example_env (Some ''name,type,start_time'') = (Ok_inserted 0, []) \<and>
   post_admin_import example_env (Some (''name,type,start_time'' @ [LF] @ '' '')) =
     (Ok_inserted 1,
      [\<lparr>ins_params = [PText '''', PText '''', PNull, PNull, PNull, PDate (Date 0), PNull],
        ins_locSql = LocNULL\<rparr>])"
proof -
  have f: "filter (\<lambda>r. r \<notin> set [''name'', ''type'', ''start_time''])
             [''name'', ''type'', ''start_time''] = []"
    by simp
  have c0: "csv_lines (Some ''name,type,start_time'') = [''name,type,start_time'']"
    by (simp add: csv_lines_def LF_def CR_def)
  have a: "post_admin_import example_env (Some ''name,type,start_time'') = (Ok_inserted 0, [])"
    by (simp only: post_admin_import_def c0 list.case Let_def example_header f import_lines.simps)
  have b: "post_admin_import example_env (Some (''name,type,start_time'' @ [LF] @ '' '')) =
     (Ok_inserted 1,
      [\<lparr>ins_params = [PText '''', PText '''', PNull, PNull, PNull, PDate (Date 0), PNull],
        ins_locSql = LocNULL\<rparr>])"
    by (simp only: post_admin_import_def example_space_body list.case Let_def example_header f
                   import_lines.simps example_space_line sum.case)
       simp
  from a b show ?thesis by blast
qed

text \<open>
  Bodies of empty lines only, no body at all, and a header followed by empty lines.
\<close>

theorem import_skips_empty_lines_witness:
  "fst (post_admin_import example_env (Some [LF, CR, LF])) = Status400 ''Empty CSV'' \<and>
   fst (post_admin_import example_env None) = Status400 ''Empty CSV'' \<and>
   csv_lines (Some (''Name, TYPE ,start_time,lat'' @ [CR, LF, LF])) = [''Name, TYPE ,start_time,lat''] \<and>
   post_admin_import example_env (Some (''Name, TYPE ,start_time,lat'' @ [CR, LF, LF])) =
     (Ok_inserted 0, [])"
proof -
  have c: "csv_lines (Some (''Name, TYPE ,start_time,lat'' @ [CR, LF, LF])) = [''Name, TYPE ,start_time,lat'']"
    by (simp add: csv_lines_def LF_def CR_def)
  have h: "map (\<lambda>x. toLowerCase (trim x)) (split_on comma ''Name, TYPE ,start_time,lat'') =
           [''name'', ''type'', ''start_time'', ''lat'']"
    by (simp add: comma_def trim_def is_space_def toLowerCase_def toLowerCase_char_def)
  have e1: "split_lines [LF, CR, LF] = [[], [], []]"
    by (simp add: LF_def CR_def)
  have a1: "fst (post_admin_import example_env (Some [LF, CR, LF])) = Status400 ''Empty CSV''"
    using import_skips_empty_lines [where e = example_env and body = "Some [LF, CR, LF]", THEN conjunct1]
    by (simp only: option.case e1) simp
  have a2: "fst (post_admin_import example_env None) = Status400 ''Empty CSV''"
    using import_skips_empty_lines [where e = example_env and body = None, THEN conjunct1]
    by simp
  have a3: "post_admin_import example_env (Some (''Name, TYPE ,start_time,lat'' @ [CR, LF, LF])) =
     (Ok_inserted 0, [])"
    using import_skips_empty_lines [where e = example_env
             and body = "Some (''Name, TYPE ,start_time,lat'' @ [CR, LF, LF])"
             and h = "''Name, TYPE ,start_time,lat''",
             THEN conjunct2, THEN conjunct2, THEN conjunct2, THEN conjunct2]
    by (simp only: c h) simp
  from a1 a2 c a3 show ?thesis by blast
qed

end
